theory Spec2Isabelle
  imports Complex_Main
begin

section \<open>Jump-egg: the simulation core of the platform-jumping game\<close>

text \<open>
  A shallow embedding of \<^verbatim>\<open>JumpEggGame\<close> (src/granite.config.ts): the tuning constants,
  \<^verbatim>\<open>getStage\<close>, \<^verbatim>\<open>createPlatform\<close>, the commands \<^verbatim>\<open>initGame\<close>, \<^verbatim>\<open>startCharging\<close>,
  \<^verbatim>\<open>releaseJump\<close>, and the frame stepper \<^verbatim>\<open>update\<close> with the scheduler callback
  \<^verbatim>\<open>loop\<close>.

  Modelling decisions:
  \<^item> JavaScript numbers are modelled as mathematical reals (\<^typ>\<open>real\<close>); rounding, NaN and
    infinities of IEEE doubles are outside the model. Values that the source produces with
    \<^verbatim>\<open>Math.floor\<close> are integers (\<^typ>\<open>int\<close>).
  \<^item> Platforms are JavaScript objects that are mutated in place and compared by identity
    (\<^verbatim>\<open>egg.onPlatform === p\<close>), so they live in an explicit store, a map from references
    to platform records; the platform column \<^verbatim>\<open>g.platforms\<close> and \<^verbatim>\<open>egg.onPlatform\<close> hold
    references. \<open>nextRef\<close> is the allocation counter of the store.
  \<^item> \<^verbatim>\<open>Math.random()\<close> reads the next value of an arbitrary sequence \<open>rand\<close> at position
    \<open>randPos\<close>; every call of the source advances the position by one, in the source's
    evaluation order.
  \<^item> The React UI state (\<^verbatim>\<open>setUiScore\<close>, \<^verbatim>\<open>evolveFlashRef\<close>, ...) and the canvas
    rendering are not part of the simulation state and are left out.
\<close>

subsection \<open>Tuning constants\<close>

definition W :: real where "W = 400"
definition H :: real where "H = 650"
definition GRAVITY :: real where "GRAVITY = 0.28"
definition MAX_JUMP_VEL :: real where "MAX_JUMP_VEL = 11.5"
definition PLATFORM_GAP :: real where "PLATFORM_GAP = 80"
definition EGG_R :: real where "EGG_R = 18"

subsection \<open>Data model\<close>

type_synonym ref = nat

datatype game_state = Idle | Charging | Jumping | Gameover

datatype platform_type = Normal | Timed | Fragile

record platform =
  p_x :: real
  p_y :: real
  p_w :: real
  p_h :: real
  p_speed :: real
  p_hue :: real
  p_type :: platform_type
  p_timer :: real
  p_landed :: bool
  p_removing :: bool

record egg_obj =
  e_x :: real
  e_y :: real
  e_vx :: real
  e_vy :: real
  e_onPlatform :: "ref option"

record particle =
  pt_x :: real
  pt_y :: real
  pt_vx :: real
  pt_vy :: real
  pt_life :: real
  pt_maxLife :: real
  pt_size :: real
  pt_hue :: real

record bird =
  b_x :: real
  b_y :: real
  b_speed :: real
  b_frame :: real

text \<open>The three texts of the landing cue: \<^verbatim>\<open>"PERFECT! +5 XP"\<close> (between two sparkle
  emoji), \<^verbatim>\<open>"+3 XP"\<close> and \<^verbatim>\<open>"SAFE"\<close>.\<close>

datatype fx_text = PerfectText | XpText | SafeText

record landing_fx =
  fx_y :: real
  fx_x :: real
  fx_timer :: real
  fx_text :: fx_text

record power_meter =
  pw_value :: real
  pw_dir :: real
  pw_speed :: real

record game =
  state :: game_state
  egg :: egg_obj
  platforms :: "ref list"
  camera_y :: real
  power :: power_meter
  score :: int
  highScore :: int
  xp :: real
  xpDecayTimer :: real
  stageIdx :: nat
  prevStageIdx :: nat
  particles :: "particle list"
  birds :: "bird list"
  birdTimer :: real
  perfectFlash :: real
  landingFx :: "landing_fx option"
  heightReached :: real
  highestPlatformY :: real
  store :: "ref \<Rightarrow> platform"
  nextRef :: ref
  rand :: "nat \<Rightarrow> real"
  randPos :: nat

subsection \<open>Evolution table\<close>

text \<open>The \<^verbatim>\<open>need\<close> column of \<^verbatim>\<open>STAGES\<close>.\<close>

definition STAGES_need :: "int list" where
  "STAGES_need = [0, 15, 40, 75, 120, 180, 260]"

text \<open>\<^verbatim>\<open>for (let i = STAGES.length - 1; i >= 0; i--) if (jumps >= STAGES[i].need) return i;
  return 0;\<close> The first argument is \<open>i + 1\<close>.\<close>

fun getStage_loop :: "nat \<Rightarrow> int \<Rightarrow> nat" where
  "getStage_loop 0 jumps = 0"
| "getStage_loop (Suc i) jumps =
     (if jumps \<ge> STAGES_need ! i then i else getStage_loop i jumps)"

definition getStage :: "int \<Rightarrow> nat" where
  "getStage jumps = getStage_loop (length STAGES_need) jumps"

subsection \<open>Platform generator\<close>

text \<open>\<^verbatim>\<open>createPlatform(y, index)\<close>, reading \<^verbatim>\<open>Math.random()\<close> from position \<open>n\<close> of
  \<open>rnd\<close>; the second component is the position after the call.\<close>

definition createPlatform :: "(nat \<Rightarrow> real) \<Rightarrow> nat \<Rightarrow> real \<Rightarrow> nat \<Rightarrow> platform \<times> nat" where
  "createPlatform rnd n y index =
    (let heightM = max 0 \<lfloor>(540 - y) / 12\<rfloor>;
         hm = real_of_int heightM;
         widthBase = max 50 (130 - hm * 0.35);
         widthVariance = max 10 (25 - hm * 0.08);
         w = widthBase + rnd n * widthVariance;
         baseSpeed = 0.6 + min 1.2 (hm * 0.008);
         zigzag = (if index mod 2 = 0 then 0.6 else 1.0);
         speed = baseSpeed * zigzag * (0.8 + rnd (n + 1) * 0.4)
                   * (if rnd (n + 2) > 0.5 then 1 else -1);
         timedChance = min 0.18 ((hm - 15) * 0.003);
         fragileChance = min 0.15 ((hm - 15) * 0.002);
         roll = rnd (n + 3);
         type = (if heightM \<ge> 15
                 then (if roll < timedChance then Timed
                       else if roll < timedChance + fragileChance then Fragile
                       else Normal)
                 else Normal);
         k = (if heightM \<ge> 15 then n + 4 else n + 3)
     in (\<lparr>p_x = 30 + rnd k * (W - 60 - w), p_y = y, p_w = w, p_h = 11, p_speed = speed,
          p_hue = (if type = Timed then 0 else if type = Fragile then 270
                   else real ((index * 37) mod 360)),
          p_type = type, p_timer = (if type = Timed then 300 else 0),
          p_landed = False, p_removing = False\<rparr>, k + 1))"

text \<open>\<^verbatim>\<open>platforms.push(createPlatform(y, index))\<close>: the new object gets the next free
  reference; the caller appends that reference (\<open>nextRef g\<close>) to its array.\<close>

definition alloc_platform :: "real \<Rightarrow> nat \<Rightarrow> game \<Rightarrow> game" where
  "alloc_platform y index g =
    (let c = createPlatform (rand g) (randPos g) y index
     in g\<lparr>store := (store g)(nextRef g := fst c), nextRef := nextRef g + 1,
          randPos := snd c\<rparr>)"

subsection \<open>Particles\<close>

text \<open>\<open>particle_burst k cnt mk g\<close> is a loop \<^verbatim>\<open>for (i = 0; i < cnt; i++) g.particles.push(...)\<close>
  whose body calls \<^verbatim>\<open>Math.random()\<close> \<open>k\<close> times: \<open>mk i r\<close> builds particle \<open>i\<close> from the
  function \<open>r\<close> giving the body's random values in call order.\<close>

definition particle_burst ::
    "nat \<Rightarrow> nat \<Rightarrow> (nat \<Rightarrow> (nat \<Rightarrow> real) \<Rightarrow> particle) \<Rightarrow> game \<Rightarrow> game" where
  "particle_burst k cnt mk g =
     g\<lparr>particles := particles g
          @ map (\<lambda>i. mk i (\<lambda>j. rand g (randPos g + k * i + j))) [0..<cnt],
       randPos := randPos g + k * cnt\<rparr>"

subsection \<open>Commands\<close>

text \<open>The value the \<^verbatim>\<open>game\<close> ref is created with, before \<^verbatim>\<open>initGame\<close> runs; the store and
  the random sequence are arbitrary.\<close>

definition game0 :: "(ref \<Rightarrow> platform) \<Rightarrow> (nat \<Rightarrow> real) \<Rightarrow> game" where
  "game0 st rnd =
    \<lparr>state = Idle,
     egg = \<lparr>e_x = W / 2, e_y = 0, e_vx = 0, e_vy = 0, e_onPlatform = None\<rparr>,
     platforms = [], camera_y = 0,
     power = \<lparr>pw_value = 50, pw_dir = 1, pw_speed = 1.6\<rparr>,
     score = 0, highScore = 0, xp = 0, xpDecayTimer = 0, stageIdx = 0, prevStageIdx = 0,
     particles = [], birds = [], birdTimer = 0, perfectFlash = 0, landingFx = None,
     heightReached = 0, highestPlatformY = 540,
     store = st, nextRef = 0, rand = rnd, randPos = 0\<rparr>"

definition seed_platform :: platform where
  "seed_platform =
    \<lparr>p_x = W / 2 - 90, p_y = 540, p_w = 180, p_h = 11, p_speed = 0, p_hue = 140,
     p_type = Normal, p_timer = 0, p_landed = False, p_removing = False\<rparr>"

text \<open>\<^verbatim>\<open>for (let i = 1; i <= 25; i++) platforms.push(createPlatform(540 - i * PLATFORM_GAP, i))\<close>;
  the first argument counts the iterations that remain.\<close>

fun init_loop :: "nat \<Rightarrow> nat \<Rightarrow> ref list \<Rightarrow> game \<Rightarrow> ref list \<times> game" where
  "init_loop 0 i plats g = (plats, g)"
| "init_loop (Suc c) i plats g =
     init_loop c (i + 1) (plats @ [nextRef g])
       (alloc_platform (540 - real i * PLATFORM_GAP) i g)"

definition initGame :: "game \<Rightarrow> game" where
  "initGame g =
    (let r0 = nextRef g;
         g0 = g\<lparr>store := (store g)(r0 := seed_platform), nextRef := r0 + 1\<rparr>;
         col = init_loop 25 1 [r0] g0
     in (snd col)\<lparr>platforms := fst col,
          egg := \<lparr>e_x = W / 2, e_y = 540 - EGG_R, e_vx = 0, e_vy = 0,
                  e_onPlatform = Some r0\<rparr>,
          camera_y := 0,
          power := \<lparr>pw_value = 50, pw_dir = 1, pw_speed = 1.6\<rparr>,
          score := 0, xp := 0, xpDecayTimer := 0, stageIdx := 0, prevStageIdx := 0,
          state := Idle, particles := [], birds := [], birdTimer := 0,
          perfectFlash := 0, landingFx := None, heightReached := 540,
          highestPlatformY := 540\<rparr>)"

definition startCharging :: "game \<Rightarrow> game" where
  "startCharging g =
    (if state g \<noteq> Idle then g
     else g\<lparr>power := (power g)\<lparr>pw_value := 0, pw_dir := 1\<rparr>, state := Charging\<rparr>)"

text \<open>The particles of \<^verbatim>\<open>releaseJump\<close>: the starburst and the sparkle ring of a perfect
  release, and the dust of an ordinary one.\<close>

definition starburst_particle :: "egg_obj \<Rightarrow> nat \<Rightarrow> (nat \<Rightarrow> real) \<Rightarrow> particle" where
  "starburst_particle e i r =
    (let angle = (real i / 24) * pi * 2; speed = 3 + r 0 * 4
     in \<lparr>pt_x = e_x e, pt_y = e_y e, pt_vx = cos angle * speed,
         pt_vy = sin angle * speed - 2, pt_life = 35 + r 1 * 20, pt_maxLife = 55,
         pt_size = 3 + r 2 * 5, pt_hue = 45 + r 3 * 30\<rparr>)"

definition sparkle_particle :: "egg_obj \<Rightarrow> nat \<Rightarrow> (nat \<Rightarrow> real) \<Rightarrow> particle" where
  "sparkle_particle e i r =
    (let angle = (real i / 12) * pi * 2
     in \<lparr>pt_x = e_x e + cos angle * 25, pt_y = e_y e + sin angle * 25,
         pt_vx = cos angle * 1.5, pt_vy = sin angle * 1.5 - 1,
         pt_life = 25 + r 0 * 15, pt_maxLife = 40, pt_size = 2 + r 1 * 3,
         pt_hue = 180 + r 2 * 60\<rparr>)"

definition dust_particle :: "egg_obj \<Rightarrow> nat \<Rightarrow> (nat \<Rightarrow> real) \<Rightarrow> particle" where
  "dust_particle e i r =
    \<lparr>pt_x = e_x e + (r 0 - 0.5) * 16, pt_y = e_y e + EGG_R, pt_vx = (r 1 - 0.5) * 3,
     pt_vy = r 2 * 2 + 1, pt_life = 25 + r 3 * 15, pt_maxLife = 40,
     pt_size = 2 + r 4 * 3, pt_hue = 45\<rparr>"

definition releaseJump :: "game \<Rightarrow> game" where
  "releaseJump g =
    (if state g \<noteq> Charging then g
     else
       let pwr = pw_value (power g) / 100;
           stageBonus = 1 + real (stageIdx g) * 0.12;
           jumpVel = MAX_JUMP_VEL * max 0.15 pwr * stageBonus;
           platVx = (case e_onPlatform (egg g) of
                       Some r \<Rightarrow> p_speed (store g r) * 0.35 | None \<Rightarrow> 0);
           g1 = (case e_onPlatform (egg g) of
                   Some r \<Rightarrow>
                     if p_type (store g r) = Fragile
                     then let st = (store g)(r := (store g r)\<lparr>p_removing := True\<rparr>)
                          in g\<lparr>store := st,
                               platforms := filter (\<lambda>q. \<not> p_removing (st q)) (platforms g)\<rparr>
                     else g
                 | None \<Rightarrow> g);
           g2 = g1\<lparr>egg := (egg g1)\<lparr>e_vy := - jumpVel, e_vx := platVx, e_onPlatform := None\<rparr>,
                   state := Jumping\<rparr>;
           isPerfect = (pw_value (power g2) \<ge> 99)
       in if isPerfect
          then
            let g3 = g2\<lparr>perfectFlash := 30, xp := xp g2 + 5\<rparr>;
                g4 = particle_burst 4 24 (starburst_particle (egg g3)) g3;
                g5 = particle_burst 3 12 (sparkle_particle (egg g4)) g4
            in g5\<lparr>landingFx := Some \<lparr>fx_y = e_y (egg g5), fx_x = e_x (egg g5),
                                       fx_timer = 40, fx_text = PerfectText\<rparr>\<rparr>
          else particle_burst 5 6 (dust_particle (egg g2)) g2)"

subsection \<open>Frame stepper: the phases of \<^verbatim>\<open>update\<close>\<close>

text \<open>Power bar: moves only while charging, bouncing at 0 and 100.\<close>

definition step_power :: "real \<Rightarrow> game \<Rightarrow> game" where
  "step_power dt g =
    (if state g = Charging
     then let p1 = (power g)\<lparr>pw_value := pw_value (power g)
                                  + pw_dir (power g) * pw_speed (power g) * dt\<rparr>;
              p2 = (if pw_value p1 \<ge> 100 then p1\<lparr>pw_value := 100, pw_dir := -1\<rparr> else p1);
              p3 = (if pw_value p2 \<le> 0 then p2\<lparr>pw_value := 0, pw_dir := 1\<rparr> else p2)
          in g\<lparr>power := p3\<rparr>
     else g)"

text \<open>Platforms move: the body of the first loop over \<^verbatim>\<open>platforms\<close>, and the loop.\<close>

definition move_platform :: "real \<Rightarrow> platform \<Rightarrow> platform" where
  "move_platform dt p =
    (if p_speed p = 0 then p
     else let p1 = p\<lparr>p_x := p_x p + p_speed p * dt\<rparr>;
              p2 = (if p_x p1 \<le> 8 then p1\<lparr>p_x := 8, p_speed := \<bar>p_speed p1\<bar>\<rparr> else p1);
              p3 = (if p_x p2 + p_w p2 \<ge> W - 8
                    then p2\<lparr>p_x := W - 8 - p_w p2, p_speed := - \<bar>p_speed p2\<bar>\<rparr> else p2)
          in p3)"

fun move_platforms :: "real \<Rightarrow> ref list \<Rightarrow> (ref \<Rightarrow> platform) \<Rightarrow> (ref \<Rightarrow> platform)" where
  "move_platforms dt [] st = st"
| "move_platforms dt (r # rs) st = move_platforms dt rs (st(r := move_platform dt (st r)))"

text \<open>Timed platform countdown: the body of the second loop for the platform behind
  reference \<open>r\<close>, and the loop.\<close>

definition timed_tick :: "real \<Rightarrow> ref \<Rightarrow> game \<Rightarrow> game" where
  "timed_tick dt r g =
    (let p = store g r
     in if p_type p = Timed \<and> p_landed p \<and> e_onPlatform (egg g) = Some r
        then let p1 = p\<lparr>p_timer := p_timer p - dt\<rparr>
             in if p_timer p1 \<le> 0 \<and> \<not> p_removing p1
                then let g1 = g\<lparr>store := (store g)(r := p1\<lparr>p_timer := 0, p_removing := True\<rparr>)\<rparr>
                     in if e_onPlatform (egg g1) = Some r
                        then g1\<lparr>egg := (egg g1)\<lparr>e_onPlatform := None, e_vy := 0\<rparr>,
                                state := Jumping\<rparr>
                        else g1
                else g\<lparr>store := (store g)(r := p1)\<rparr>
        else g)"

fun timed_countdown :: "real \<Rightarrow> ref list \<Rightarrow> game \<Rightarrow> game" where
  "timed_countdown dt [] g = g"
| "timed_countdown dt (r # rs) g = timed_countdown dt rs (timed_tick dt r g)"

text \<open>\<^verbatim>\<open>g.platforms = g.platforms.filter((p) => !(p.type === "timed" && p.removing))\<close>: a new
  array is assigned to \<^verbatim>\<open>g.platforms\<close>; the local \<^verbatim>\<open>platforms\<close> of \<^verbatim>\<open>update\<close> still refers
  to the array the frame started with.\<close>

definition purge_timed :: "game \<Rightarrow> game" where
  "purge_timed g =
     g\<lparr>platforms := filter (\<lambda>r. \<not> (p_type (store g r) = Timed \<and> p_removing (store g r)))
                          (platforms g)\<rparr>"

text \<open>Bird spawning.\<close>

definition height_m :: "game \<Rightarrow> int" where
  "height_m g = max 0 \<lfloor>(540 - heightReached g) / 12\<rfloor>"

definition birdInterval :: "int \<Rightarrow> real" where
  "birdInterval height =
    (if height \<ge> 40 \<and> height < 80 then 500
     else if height \<ge> 80 \<and> height < 130 then 350
     else if height \<ge> 130 \<and> height < 200 then 250
     else if height \<ge> 200 \<and> height < 300 then 170
     else if height \<ge> 300 then 120
     else 99999)"

definition spawn_bird :: "real \<Rightarrow> game \<Rightarrow> game" where
  "spawn_bird dt g =
    (let g1 = g\<lparr>birdTimer := birdTimer g + dt\<rparr>;
         height = height_m g1
     in if birdTimer g1 > birdInterval height
        then let n = randPos g1;
                 birdY = camera_y g1 + 80 + rand g1 n * (H - 200)
             in g1\<lparr>birdTimer := 0,
                   birds := birds g1 @
                     [\<lparr>b_x = W + 30, b_y = birdY,
                       b_speed = 1.5 + rand g1 (n + 1) * 1.2 + min 2 (real_of_int height * 0.01),
                       b_frame = 0\<rparr>],
                   randPos := n + 2\<rparr>
        else g1)"

text \<open>Update birds: the loop over \<^verbatim>\<open>g.birds\<close> moves each bird and resolves its collision
  with the egg; it returns the birds as the loop leaves them.\<close>

definition hit_particle :: "egg_obj \<Rightarrow> nat \<Rightarrow> (nat \<Rightarrow> real) \<Rightarrow> particle" where
  "hit_particle e i r =
    \<lparr>pt_x = e_x e, pt_y = e_y e, pt_vx = - (r 0 * 3 + 1), pt_vy = (r 1 - 0.5) * 3,
     pt_life = 15, pt_maxLife = 15, pt_size = 2 + r 2 * 3, pt_hue = 30\<rparr>"

definition bird_hit :: "game \<Rightarrow> game" where
  "bird_hit g =
    (let g1 = g\<lparr>egg := (egg g)\<lparr>e_vx := -4\<rparr>\<rparr>;
         g2 = (if state g1 = Idle \<or> state g1 = Charging
               then g1\<lparr>egg := (egg g1)\<lparr>e_onPlatform := None, e_vy := -2\<rparr>, state := Jumping\<rparr>
               else g1)
     in particle_burst 3 6 (hit_particle (egg g2)) g2)"

fun birds_loop :: "real \<Rightarrow> bird list \<Rightarrow> game \<Rightarrow> bird list \<times> game" where
  "birds_loop dt [] g = ([], g)"
| "birds_loop dt (b # bs) g =
    (let b1 = b\<lparr>b_x := b_x b - b_speed b * dt, b_frame := b_frame b + dt * 0.15\<rparr>;
         dx = e_x (egg g) - b_x b1;
         dy = e_y (egg g) - b_y b1
     in if \<bar>dx\<bar> < EGG_R + 14 \<and> \<bar>dy\<bar> < EGG_R + 8
        then let rest = birds_loop dt bs (bird_hit g)
             in (b1\<lparr>b_x := -100\<rparr> # fst rest, snd rest)
        else let rest = birds_loop dt bs g
             in (b1 # fst rest, snd rest))"

definition update_birds :: "real \<Rightarrow> game \<Rightarrow> game" where
  "update_birds dt g =
    (let res = birds_loop dt (birds g) g
     in (snd res)\<lparr>birds := filter (\<lambda>b. b_x b > -50) (fst res)\<rparr>)"

text \<open>XP decay when idle or charging.\<close>

definition decay_particle :: "egg_obj \<Rightarrow> nat \<Rightarrow> (nat \<Rightarrow> real) \<Rightarrow> particle" where
  "decay_particle e i r =
    \<lparr>pt_x = e_x e + (r 0 - 0.5) * 30, pt_y = e_y e + (r 1 - 0.5) * 30,
     pt_vx = (r 2 - 0.5) * 3, pt_vy = - (r 3 * 2), pt_life = 20 + r 4 * 15,
     pt_maxLife = 35, pt_size = 2 + r 5 * 3, pt_hue = 0\<rparr>"

definition xp_decay :: "real \<Rightarrow> game \<Rightarrow> game" where
  "xp_decay dt g =
    (if (state g = Idle \<or> state g = Charging) \<and> xp g > 0
     then let g1 = g\<lparr>xpDecayTimer := xpDecayTimer g + dt, xp := max 0 (xp g - 0.008 * dt)\<rparr>;
              newStage = getStage \<lfloor>xp g1\<rfloor>;
              g2 = (if newStage < stageIdx g1
                    then particle_burst 6 10 (decay_particle (egg g1)) g1 else g1)
          in g2\<lparr>stageIdx := newStage\<rparr>
     else g)"

text \<open>Egg on platform.\<close>

definition grounded :: "real \<Rightarrow> game \<Rightarrow> game" where
  "grounded dt g =
    (if state g = Idle \<or> state g = Charging
     then (case e_onPlatform (egg g) of
             None \<Rightarrow> g
           | Some r \<Rightarrow>
               let p = store g r; platScreenY = p_y p - camera_y g
               in if platScreenY > H
                  then g\<lparr>egg := (egg g)\<lparr>e_onPlatform := None, e_vy := 0\<rparr>, state := Jumping\<rparr>
                  else g\<lparr>egg := (egg g)\<lparr>
                           e_x := max EGG_R (min (W - EGG_R) (e_x (egg g) + p_speed p * dt)),
                           e_y := p_y p - EGG_R\<rparr>\<rparr>)
     else g)"

text \<open>Jumping physics: integration with the elastic side walls.\<close>

definition integrate :: "real \<Rightarrow> game \<Rightarrow> game" where
  "integrate dt g =
    (let e0 = egg g;
         vy1 = e_vy e0 + GRAVITY * dt;
         e1 = e0\<lparr>e_vy := vy1, e_x := e_x e0 + e_vx e0 * dt, e_y := e_y e0 + vy1 * dt\<rparr>;
         e2 = (if e_x e1 < EGG_R then e1\<lparr>e_x := EGG_R, e_vx := \<bar>e_vx e1\<bar> * 0.7\<rparr> else e1);
         e3 = (if e_x e2 > W - EGG_R
               then e2\<lparr>e_x := W - EGG_R, e_vx := - \<bar>e_vx e2\<bar> * 0.7\<rparr> else e2)
     in g\<lparr>egg := e3\<rparr>)"

text \<open>Trail particles: \<^verbatim>\<open>if (egg.vy < -1 && Math.random() > 0.5)\<close> calls \<^verbatim>\<open>Math.random()\<close>
  only when the egg moves up fast enough; the particle then takes five more values.\<close>

definition emit_trail :: "game \<Rightarrow> game" where
  "emit_trail g =
    (if e_vy (egg g) < -1
     then let n = randPos g
          in if rand g n > 0.5
             then let isPerfectTrail = (perfectFlash g > 0);
                      r = (\<lambda>j. rand g (n + 1 + j));
                      p = \<lparr>pt_x = e_x (egg g) + (r 0 - 0.5) * 10,
                           pt_y = e_y (egg g) + EGG_R + 4,
                           pt_vx = (r 1 - 0.5) * (if isPerfectTrail then 2 else 0.5),
                           pt_vy = r 2 * 0.8 + 0.3,
                           pt_life = (if isPerfectTrail then 25 else 15 + r 3 * 10),
                           pt_maxLife = (if isPerfectTrail then 35 else 25),
                           pt_size = (if isPerfectTrail then 3 + r 3 * 3 else 1.5 + r 4 * 2),
                           pt_hue = (if isPerfectTrail then 45 + r 4 * 20 else 200)\<rparr>
                  in g\<lparr>particles := particles g @ [p], randPos := n + 6\<rparr>
             else g\<lparr>randPos := n + 1\<rparr>
     else g)"

text \<open>Landing on the platform behind reference \<open>r\<close>: the body of the landing test's
  \<^verbatim>\<open>if\<close>, up to its \<^verbatim>\<open>break\<close>.\<close>

definition landing_particle :: "egg_obj \<Rightarrow> platform \<Rightarrow> nat \<Rightarrow> (nat \<Rightarrow> real) \<Rightarrow> particle" where
  "landing_particle e p i r =
    \<lparr>pt_x = e_x e + (r 0 - 0.5) * 20, pt_y = p_y p, pt_vx = (r 1 - 0.5) * 4,
     pt_vy = - (r 2 * 2 + 0.5), pt_life = 20 + r 3 * 15, pt_maxLife = 35,
     pt_size = 2 + r 4 * 3, pt_hue = p_hue p\<rparr>"

definition evolve_particle :: "egg_obj \<Rightarrow> nat \<Rightarrow> (nat \<Rightarrow> real) \<Rightarrow> particle" where
  "evolve_particle e i r =
    (let angle = (real i / 20) * pi * 2
     in \<lparr>pt_x = e_x e, pt_y = e_y e, pt_vx = cos angle * (2 + r 0 * 3),
         pt_vy = sin angle * (2 + r 1 * 3), pt_life = 30 + r 2 * 20, pt_maxLife = 50,
         pt_size = 3 + r 3 * 4, pt_hue = 50\<rparr>)"

definition land :: "ref \<Rightarrow> game \<Rightarrow> game" where
  "land r g =
    (let p = store g r;
         g1 = g\<lparr>egg := (egg g)\<lparr>e_y := p_y p - EGG_R, e_vy := 0, e_vx := 0,
                              e_onPlatform := Some r\<rparr>,
                state := Idle\<rparr>;
         g2 = (if p_type p = Timed
               then g1\<lparr>store := (store g1)(r := p\<lparr>p_landed := True\<rparr>)\<rparr> else g1);
         g3 = (if p_y p < highestPlatformY g2
               then g2\<lparr>xp := xp g2 + 3, highestPlatformY := p_y p,
                       landingFx := Some \<lparr>fx_y = p_y p, fx_x = e_x (egg g2), fx_timer = 20,
                                           fx_text = XpText\<rparr>\<rparr>
               else g2\<lparr>landingFx := Some \<lparr>fx_y = p_y p, fx_x = e_x (egg g2), fx_timer = 20,
                                           fx_text = SafeText\<rparr>\<rparr>);
         g4 = g3\<lparr>score := max (score g3) \<lfloor>(540 - p_y p) / 12\<rfloor>, xpDecayTimer := 0\<rparr>;
         g5 = particle_burst 5 8 (landing_particle (egg g4) p) g4;
         g6 = g5\<lparr>prevStageIdx := stageIdx g5, stageIdx := getStage \<lfloor>xp g5\<rfloor>\<rparr>
     in if stageIdx g6 > prevStageIdx g6
        then particle_burst 4 20 (evolve_particle (egg g6)) g6
        else g6)"

text \<open>The landing test of one platform, and the loop over \<^verbatim>\<open>platforms\<close>: the first
  platform that passes the test wins.\<close>

definition can_land :: "real \<Rightarrow> ref \<Rightarrow> game \<Rightarrow> bool" where
  "can_land dt r g =
    (let p = store g r; screenY = p_y p - camera_y g;
         prevY = e_y (egg g) - e_vy (egg g) * dt
     in \<not> (screenY < -20 \<or> screenY > H) \<and> \<not> p_removing p \<and>
        prevY + EGG_R \<le> p_y p + 4 \<and> e_y (egg g) + EGG_R \<ge> p_y p - 2 \<and>
        e_x (egg g) + EGG_R * 0.6 > p_x p \<and> e_x (egg g) - EGG_R * 0.6 < p_x p + p_w p)"

fun landing_loop :: "real \<Rightarrow> ref list \<Rightarrow> game \<Rightarrow> game" where
  "landing_loop dt [] g = g"
| "landing_loop dt (r # rs) g = (if can_land dt r g then land r g else landing_loop dt rs g)"

definition jumping :: "real \<Rightarrow> ref list \<Rightarrow> game \<Rightarrow> game" where
  "jumping dt plats g =
    (if state g = Jumping
     then let g1 = emit_trail (integrate dt g);
              g2 = (if e_vy (egg g1) > 0 \<and> e_y (egg g1) - camera_y g1 < H + 10
                    then landing_loop dt plats g1 else g1)
          in if e_y (egg g2) > camera_y g2 + H + 20
             then g2\<lparr>state := Gameover, highScore := max (highScore g2) (score g2)\<rparr>
             else g2
     else g)"

text \<open>Camera and best height.\<close>

definition camera_step :: "real \<Rightarrow> game \<Rightarrow> game" where
  "camera_step dt g =
    (let targetCamY = e_y (egg g) - H * 0.55;
         g1 = (if targetCamY < camera_y g
               then g\<lparr>camera_y := camera_y g + (targetCamY - camera_y g) * 0.07 * dt\<rparr>
               else g)
     in g1\<lparr>heightReached := min (heightReached g1) (e_y (egg g1))\<rparr>)"

text \<open>Platform management. \<^verbatim>\<open>while (minY > camera.y - 300)\<close> pushes new platforms onto the
  local array \<open>plats\<close>.\<close>

function column_loop :: "real \<Rightarrow> ref list \<Rightarrow> game \<Rightarrow> ref list \<times> game" where
  "column_loop minY plats g =
    (if minY > camera_y g - 300
     then column_loop (minY - PLATFORM_GAP) (plats @ [nextRef g])
            (alloc_platform (minY - PLATFORM_GAP) (length plats) g)
     else (plats, g))"
  by pat_completeness auto
termination
proof (relation "measure (\<lambda>(minY, plats, g). nat \<lceil>(minY - (camera_y g - 300)) / 80\<rceil>)")
  show "wf (measure (\<lambda>(minY, plats, g). nat \<lceil>(minY - (camera_y g - 300)) / 80\<rceil>))"
    by simp
next
  fix minY :: real and plats :: "ref list" and g :: game
  assume gt: "camera_y g - 300 < minY"
  have cam: "camera_y (alloc_platform (minY - PLATFORM_GAP) (length plats) g) = camera_y g"
    by (simp add: alloc_platform_def Let_def)
  define d where "d = (minY - (camera_y g - 300)) / 80"
  have pos: "0 < d" using gt by (simp add: d_def)
  have step: "(minY - PLATFORM_GAP - (camera_y g - 300)) / 80 = d - 1"
    by (simp add: d_def PLATFORM_GAP_def field_simps)
  have "\<lceil>d - 1\<rceil> = \<lceil>d\<rceil> - 1" by simp
  moreover have "0 < \<lceil>d\<rceil>" using pos by (simp add: ceiling_less_iff)
  ultimately have "nat \<lceil>d - 1\<rceil> < nat \<lceil>d\<rceil>" by simp
  then show "((minY - PLATFORM_GAP, plats @ [nextRef g],
               alloc_platform (minY - PLATFORM_GAP) (length plats) g), (minY, plats, g))
             \<in> measure (\<lambda>(minY, plats, g). nat \<lceil>(minY - (camera_y g - 300)) / 80\<rceil>)"
    by (simp add: cam step d_def)
qed

declare column_loop.simps [simp del]

text \<open>\<^verbatim>\<open>Math.min(...platforms.map((p) => p.y))\<close> of an empty array is \<^verbatim>\<open>Infinity\<close>, and the
  \<^verbatim>\<open>while\<close> loop then never ends: the phase has no result (\<open>None\<close>). Otherwise the loop
  runs on the local array and \<^verbatim>\<open>g.platforms\<close> becomes the local array, filtered.\<close>

definition column_maintenance :: "ref list \<Rightarrow> game \<Rightarrow> game option" where
  "column_maintenance plats g =
    (if plats = [] then None
     else let res = column_loop (min_list (map (\<lambda>r. p_y (store g r)) plats)) plats g;
              g1 = snd res
          in Some (g1\<lparr>platforms :=
                        filter (\<lambda>r. p_y (store g1 r) < camera_y g1 + H + 50) (fst res)\<rparr>))"

text \<open>Particles, landing cue and perfect-jump flash.\<close>

definition step_particle :: "real \<Rightarrow> particle \<Rightarrow> particle" where
  "step_particle dt p =
     p\<lparr>pt_x := pt_x p + pt_vx p * dt, pt_y := pt_y p + pt_vy p * dt,
       pt_vy := pt_vy p + 0.05 * dt, pt_life := pt_life p - dt\<rparr>"

definition step_particles :: "real \<Rightarrow> game \<Rightarrow> game" where
  "step_particles dt g =
     g\<lparr>particles := filter (\<lambda>p. pt_life p > 0) (map (step_particle dt) (particles g))\<rparr>"

definition step_fx :: "real \<Rightarrow> game \<Rightarrow> game" where
  "step_fx dt g =
    (let g1 = (case landingFx g of
                 None \<Rightarrow> g
               | Some fx \<Rightarrow>
                   let fx1 = fx\<lparr>fx_timer := fx_timer fx - dt\<rparr>
                   in if fx_timer fx1 \<le> 0 then g\<lparr>landingFx := None\<rparr>
                      else g\<lparr>landingFx := Some fx1\<rparr>)
     in if perfectFlash g1 > 0 then g1\<lparr>perfectFlash := perfectFlash g1 - dt\<rparr> else g1)"

subsection \<open>Frame stepper: \<^verbatim>\<open>update\<close> and \<^verbatim>\<open>loop\<close>\<close>

text \<open>The part of \<^verbatim>\<open>update\<close> before platform management. \<open>plats\<close> is the local
  \<^verbatim>\<open>platforms\<close>, bound to the array \<^verbatim>\<open>g.platforms\<close> when the frame starts.\<close>

definition simulate :: "real \<Rightarrow> ref list \<Rightarrow> game \<Rightarrow> game" where
  "simulate dt plats g =
    (let g1 = step_power dt g;
         g2 = g1\<lparr>store := move_platforms dt plats (store g1)\<rparr>;
         g3 = timed_countdown dt plats g2;
         g4 = purge_timed g3;
         g5 = spawn_bird dt g4;
         g6 = update_birds dt g5;
         g7 = xp_decay dt g6;
         g8 = grounded dt g7;
         g9 = jumping dt plats g8
     in camera_step dt g9)"

definition update :: "real \<Rightarrow> game \<Rightarrow> game option" where
  "update dt g =
    (if state g = Gameover then Some g
     else let plats = platforms g
          in (case column_maintenance plats (simulate dt plats g) of
                None \<Rightarrow> None
              | Some g' \<Rightarrow> Some (step_fx dt (step_particles dt g'))))"

text \<open>The time-delta of \<^verbatim>\<open>loop(time)\<close>, and the callback itself on the pair of
  \<^verbatim>\<open>lastTime\<close> and the game.\<close>

definition frame_dt :: "real \<Rightarrow> real \<Rightarrow> real" where
  "frame_dt time lastTime = min ((time - lastTime) / 16.67) 2.5"

definition loop :: "real \<Rightarrow> real \<times> game \<Rightarrow> (real \<times> game) option" where
  "loop time s =
    (let dt = frame_dt time (fst s)
     in (case update dt (snd s) of None \<Rightarrow> None | Some g' \<Rightarrow> Some (time, g')))"

text \<open>The scheduler. \<^verbatim>\<open>requestAnimationFrame\<close> is the only caller of \<^verbatim>\<open>loop\<close>: it calls it once
  per tick with the tick's timestamp, and \<^verbatim>\<open>lastTime\<close> starts at 0. \<open>schedule\<close> runs \<^verbatim>\<open>loop\<close>
  over the timestamps of successive ticks; \<open>deltas\<close> lists the time-deltas that \<^verbatim>\<open>loop\<close>
  derives on the way (\<^verbatim>\<open>lastTime = time\<close> after each tick).\<close>

fun schedule :: "real list \<Rightarrow> real \<times> game \<Rightarrow> (real \<times> game) option" where
  "schedule [] s = Some s"
| "schedule (t # ts) s = (case loop t s of None \<Rightarrow> None | Some s' \<Rightarrow> schedule ts s')"

fun deltas :: "real \<Rightarrow> real list \<Rightarrow> real list" where
  "deltas lastTime [] = []"
| "deltas lastTime (t # ts) = frame_dt t lastTime # deltas t ts"

subsection \<open>Runs\<close>

text \<open>What can happen to the game: a frame step with some time-delta, or one of the three
  commands. A run has no result when one of its frame steps has none.\<close>

datatype event = Tick real | Reset | BeginCharge | Release

fun exec :: "event \<Rightarrow> game \<Rightarrow> game option" where
  "exec (Tick dt) g = update dt g"
| "exec Reset g = Some (initGame g)"
| "exec BeginCharge g = Some (startCharging g)"
| "exec Release g = Some (releaseJump g)"

fun run :: "event list \<Rightarrow> game \<Rightarrow> game option" where
  "run [] g = Some g"
| "run (ev # evs) g = (case exec ev g of None \<Rightarrow> None | Some g' \<Rightarrow> run evs g')"

subsection \<open>Sample states\<close>

text \<open>A small world used to run the definitions on concrete inputs: the seed platform
  (reference 0), a moving platform one gap above it that carries the egg (reference 1),
  and a platform far above the camera (reference 2).\<close>

definition demo_game :: game where
  "demo_game =
    \<lparr>state = Idle,
     egg = \<lparr>e_x = 200, e_y = 442, e_vx = 0, e_vy = 0, e_onPlatform = Some 1\<rparr>,
     platforms = [0, 1, 2], camera_y = 0,
     power = \<lparr>pw_value = 50, pw_dir = 1, pw_speed = 1.6\<rparr>,
     score = 6, highScore = 6, xp = 3, xpDecayTimer = 0, stageIdx = 0, prevStageIdx = 0,
     particles = [], birds = [], birdTimer = 0, perfectFlash = 0, landingFx = None,
     heightReached = 442, highestPlatformY = 460,
     store = (\<lambda>_. seed_platform)
       (1 := seed_platform\<lparr>p_y := 460, p_speed := 1\<rparr>,
        2 := seed_platform\<lparr>p_y := -300, p_speed := -1\<rparr>),
     nextRef = 3, rand = (\<lambda>_. 1 / 2), randPos = 0\<rparr>"

text \<open>The power meter at its maximum while charging.\<close>

definition charged_game :: game where
  "charged_game =
     demo_game\<lparr>state := Charging, power := \<lparr>pw_value = 100, pw_dir = -1, pw_speed = 1.6\<rparr>\<rparr>"

text \<open>The run is over.\<close>

definition over_game :: game where
  "over_game = demo_game\<lparr>state := Gameover\<rparr>"

text \<open>The egg in flight, moving up, above the camera's target line.\<close>

definition rising_game :: game where
  "rising_game =
     demo_game\<lparr>state := Jumping,
       egg := \<lparr>e_x = 200, e_y = 300, e_vx = 0, e_vy = -8, e_onPlatform = None\<rparr>\<rparr>"

text \<open>Charging, with a bird that reaches the egg in the next frame.\<close>

definition hit_game :: game where
  "hit_game =
     demo_game\<lparr>state := Charging,
       birds := [\<lparr>b_x = 220, b_y = 440, b_speed = 2, b_frame = 0\<rparr>]\<rparr>"

text \<open>The egg falling onto the moving platform: once with the seed platform as the best
  landing so far, once with the moving platform itself.\<close>

definition falling_game :: game where
  "falling_game =
     demo_game\<lparr>state := Jumping,
       egg := \<lparr>e_x = 200, e_y = 443, e_vx = 0, e_vy = 3, e_onPlatform = None\<rparr>,
       highestPlatformY := 540\<rparr>"

definition refalling_game :: game where
  "refalling_game = falling_game\<lparr>highestPlatformY := 460\<rparr>"

text \<open>Charging on a fragile platform.\<close>

definition fragile_game :: game where
  "fragile_game =
     demo_game\<lparr>state := Charging,
       store := (store demo_game)(1 := (store demo_game 1)\<lparr>p_type := Fragile\<rparr>)\<rparr>"

text \<open>Twenty meters up, resting on a timed platform (reference 1) whose countdown has one
  time unit left; the camera has settled at its target.\<close>

definition timed_game :: game where
  "timed_game =
    \<lparr>state = Idle,
     egg = \<lparr>e_x = 200, e_y = 282, e_vx = 0, e_vy = 0, e_onPlatform = Some 1\<rparr>,
     platforms = [0, 1, 2], camera_y = - (151 / 2),
     power = \<lparr>pw_value = 50, pw_dir = 1, pw_speed = 1.6\<rparr>,
     score = 20, highScore = 20, xp = 9, xpDecayTimer = 299, stageIdx = 0, prevStageIdx = 0,
     particles = [], birds = [], birdTimer = 0, perfectFlash = 0, landingFx = None,
     heightReached = 282, highestPlatformY = 300,
     store = (\<lambda>_. seed_platform)
       (1 := \<lparr>p_x = 150, p_y = 300, p_w = 120, p_h = 11, p_speed = 1 / 2, p_hue = 0,
              p_type = Timed, p_timer = 1, p_landed = True, p_removing = False\<rparr>,
        2 := seed_platform\<lparr>p_y := -420, p_speed := -1\<rparr>),
     nextRef = 3, rand = (\<lambda>_. 1 / 2), randPos = 0\<rparr>"

text \<open>Eight meters up, with the bird timer at the interval of the region below the lowest
  band, as it is after 99999 time units without a bird.\<close>

definition waiting_game :: game where
  "waiting_game = demo_game\<lparr>birdTimer := 99999\<rparr>"

subsection \<open>Auxiliary notions\<close>

text \<open>A platform object that has been allocated and is not in the column.\<close>

definition gone :: "ref \<Rightarrow> game \<Rightarrow> bool" where
  "gone r g = (r < nextRef g \<and> r \<notin> set (platforms g))"

text \<open>The egg at rest where \<^verbatim>\<open>initGame\<close> puts it: idle on the seed platform (reference \<open>r\<close>),
  the camera at 0, no birds, no experience.\<close>

definition resting :: "ref \<Rightarrow> game \<Rightarrow> bool" where
  "resting r g =
    (state g = Idle \<and>
     egg g = \<lparr>e_x = W / 2, e_y = 540 - EGG_R, e_vx = 0, e_vy = 0, e_onPlatform = Some r\<rparr> \<and>
     store g r = seed_platform \<and> r \<in> set (platforms g) \<and> r < nextRef g \<and>
     camera_y g = 0 \<and> birds g = [] \<and> xp g = 0 \<and>
     540 - EGG_R \<le> heightReached g \<and> heightReached g \<le> 540)"

text \<open>The platforms of the column and the platform under the egg are allocated objects.\<close>

definition refs_ok :: "game \<Rightarrow> bool" where
  "refs_ok g =
    (list_all (\<lambda>r. r < nextRef g) (platforms g) \<and>
     (case e_onPlatform (egg g) of None \<Rightarrow> True | Some r \<Rightarrow> r < nextRef g))"

text \<open>The state the landing test runs on, in a frame that starts in the jumping state:
  the phases of \<^verbatim>\<open>update\<close> up to the trail particles.\<close>

definition before_landing :: "real \<Rightarrow> game \<Rightarrow> game" where
  "before_landing dt g =
     emit_trail (integrate dt (update_birds dt (spawn_bird dt (purge_timed
       (timed_countdown dt (platforms g)
          ((step_power dt g)\<lparr>store := move_platforms dt (platforms g)
                                          (store (step_power dt g))\<rparr>))))))"

section \<open>Properties\<close>

subsection \<open>What each phase leaves unchanged\<close>

lemmas tuning_defs = W_def H_def GRAVITY_def MAX_JUMP_VEL_def PLATFORM_GAP_def EGG_R_def

lemma particle_burst_fields [simp]:
  "state (particle_burst k c mk g) = state g"
  "egg (particle_burst k c mk g) = egg g"
  "platforms (particle_burst k c mk g) = platforms g"
  "camera_y (particle_burst k c mk g) = camera_y g"
  "power (particle_burst k c mk g) = power g"
  "score (particle_burst k c mk g) = score g"
  "highScore (particle_burst k c mk g) = highScore g"
  "xp (particle_burst k c mk g) = xp g"
  "stageIdx (particle_burst k c mk g) = stageIdx g"
  "birds (particle_burst k c mk g) = birds g"
  "birdTimer (particle_burst k c mk g) = birdTimer g"
  "landingFx (particle_burst k c mk g) = landingFx g"
  "heightReached (particle_burst k c mk g) = heightReached g"
  "highestPlatformY (particle_burst k c mk g) = highestPlatformY g"
  "store (particle_burst k c mk g) = store g"
  "nextRef (particle_burst k c mk g) = nextRef g"
  "rand (particle_burst k c mk g) = rand g"
  by (simp_all add: particle_burst_def)

lemma alloc_platform_fields [simp]:
  "state (alloc_platform y i g) = state g"
  "egg (alloc_platform y i g) = egg g"
  "platforms (alloc_platform y i g) = platforms g"
  "camera_y (alloc_platform y i g) = camera_y g"
  "power (alloc_platform y i g) = power g"
  "xp (alloc_platform y i g) = xp g"
  "highScore (alloc_platform y i g) = highScore g"
  "birds (alloc_platform y i g) = birds g"
  "birdTimer (alloc_platform y i g) = birdTimer g"
  "heightReached (alloc_platform y i g) = heightReached g"
  "rand (alloc_platform y i g) = rand g"
  "nextRef (alloc_platform y i g) = Suc (nextRef g)"
  by (simp_all add: alloc_platform_def Let_def)

lemma alloc_platform_store:
  "r \<noteq> nextRef g \<Longrightarrow> store (alloc_platform y i g) r = store g r"
  by (simp add: alloc_platform_def Let_def)

lemma createPlatform_y [simp]: "p_y (fst (createPlatform rnd n y i)) = y"
  by (simp add: createPlatform_def Let_def)

lemma alloc_platform_new_y [simp]:
  "p_y (store (alloc_platform y i g) (nextRef g)) = y"
  by (simp add: alloc_platform_def Let_def)

lemma column_loop_stop:
  "\<not> minY > camera_y g - 300 \<Longrightarrow> column_loop minY plats g = (plats, g)"
  by (subst column_loop.simps) simp

lemma column_loop_step:
  "minY > camera_y g - 300 \<Longrightarrow>
   column_loop minY plats g =
     column_loop (minY - PLATFORM_GAP) (plats @ [nextRef g])
       (alloc_platform (minY - PLATFORM_GAP) (length plats) g)"
  by (subst column_loop.simps) simp

lemma column_loop_frame:
  "state (snd (column_loop m ps g)) = state g \<and>
   egg (snd (column_loop m ps g)) = egg g \<and>
   platforms (snd (column_loop m ps g)) = platforms g \<and>
   camera_y (snd (column_loop m ps g)) = camera_y g \<and>
   power (snd (column_loop m ps g)) = power g \<and>
   xp (snd (column_loop m ps g)) = xp g \<and>
   highScore (snd (column_loop m ps g)) = highScore g \<and>
   birds (snd (column_loop m ps g)) = birds g \<and>
   birdTimer (snd (column_loop m ps g)) = birdTimer g \<and>
   heightReached (snd (column_loop m ps g)) = heightReached g \<and>
   rand (snd (column_loop m ps g)) = rand g"
proof (induction m ps g rule: column_loop.induct)
  case (1 minY plats g)
  show ?case
  proof (cases "minY > camera_y g - 300")
    case True
    with 1 show ?thesis by (simp add: column_loop_step)
  next
    case False
    then show ?thesis by (simp add: column_loop_stop)
  qed
qed

lemma column_loop_refs:
  "fst (column_loop m ps g) = ps @ [nextRef g ..< nextRef (snd (column_loop m ps g))] \<and>
   nextRef g \<le> nextRef (snd (column_loop m ps g)) \<and>
   (\<forall>r < nextRef g. store (snd (column_loop m ps g)) r = store g r)"
proof (induction m ps g rule: column_loop.induct)
  case (1 minY plats g)
  show ?case
  proof (cases "minY > camera_y g - 300")
    case True
    with 1 show ?thesis
      by (auto simp add: column_loop_step alloc_platform_store upt_conv_Cons)
  next
    case False
    then show ?thesis by (simp add: column_loop_stop)
  qed
qed

lemma move_platform_keeps [simp]:
  "p_y (move_platform dt p) = p_y p"
  "p_w (move_platform dt p) = p_w p"
  "p_type (move_platform dt p) = p_type p"
  "p_timer (move_platform dt p) = p_timer p"
  "p_landed (move_platform dt p) = p_landed p"
  "p_removing (move_platform dt p) = p_removing p"
  by (simp_all add: move_platform_def Let_def)

lemma move_platforms_keeps [simp]:
  "p_y (move_platforms dt ps st r) = p_y (st r)"
  "p_w (move_platforms dt ps st r) = p_w (st r)"
  "p_type (move_platforms dt ps st r) = p_type (st r)"
  "p_timer (move_platforms dt ps st r) = p_timer (st r)"
  "p_landed (move_platforms dt ps st r) = p_landed (st r)"
  "p_removing (move_platforms dt ps st r) = p_removing (st r)"
  by (induction ps arbitrary: st; simp)+

lemma timed_tick_frame [simp]:
  "platforms (timed_tick dt r g) = platforms g"
  "camera_y (timed_tick dt r g) = camera_y g"
  "power (timed_tick dt r g) = power g"
  "xp (timed_tick dt r g) = xp g"
  "highScore (timed_tick dt r g) = highScore g"
  "birds (timed_tick dt r g) = birds g"
  "birdTimer (timed_tick dt r g) = birdTimer g"
  "heightReached (timed_tick dt r g) = heightReached g"
  "nextRef (timed_tick dt r g) = nextRef g"
  "rand (timed_tick dt r g) = rand g"
  "p_y (store (timed_tick dt r g) q) = p_y (store g q)"
  "p_type (store (timed_tick dt r g) q) = p_type (store g q)"
  "p_landed (store (timed_tick dt r g) q) = p_landed (store g q)"
  by (simp_all add: timed_tick_def Let_def)

lemma timed_countdown_frame [simp]:
  "platforms (timed_countdown dt rs g) = platforms g"
  "camera_y (timed_countdown dt rs g) = camera_y g"
  "power (timed_countdown dt rs g) = power g"
  "xp (timed_countdown dt rs g) = xp g"
  "highScore (timed_countdown dt rs g) = highScore g"
  "birds (timed_countdown dt rs g) = birds g"
  "birdTimer (timed_countdown dt rs g) = birdTimer g"
  "heightReached (timed_countdown dt rs g) = heightReached g"
  "nextRef (timed_countdown dt rs g) = nextRef g"
  "rand (timed_countdown dt rs g) = rand g"
  "p_y (store (timed_countdown dt rs g) q) = p_y (store g q)"
  "p_type (store (timed_countdown dt rs g) q) = p_type (store g q)"
  "p_landed (store (timed_countdown dt rs g) q) = p_landed (store g q)"
  by (induction rs arbitrary: g; simp)+

lemma bird_hit_frame [simp]:
  "platforms (bird_hit g) = platforms g"
  "camera_y (bird_hit g) = camera_y g"
  "power (bird_hit g) = power g"
  "xp (bird_hit g) = xp g"
  "highScore (bird_hit g) = highScore g"
  "birdTimer (bird_hit g) = birdTimer g"
  "heightReached (bird_hit g) = heightReached g"
  "nextRef (bird_hit g) = nextRef g"
  "rand (bird_hit g) = rand g"
  "store (bird_hit g) = store g"
  "e_x (egg (bird_hit g)) = e_x (egg g)"
  "e_y (egg (bird_hit g)) = e_y (egg g)"
  by (simp_all add: bird_hit_def Let_def)

lemma birds_loop_frame [simp]:
  "platforms (snd (birds_loop dt bs g)) = platforms g"
  "camera_y (snd (birds_loop dt bs g)) = camera_y g"
  "power (snd (birds_loop dt bs g)) = power g"
  "xp (snd (birds_loop dt bs g)) = xp g"
  "highScore (snd (birds_loop dt bs g)) = highScore g"
  "birdTimer (snd (birds_loop dt bs g)) = birdTimer g"
  "heightReached (snd (birds_loop dt bs g)) = heightReached g"
  "nextRef (snd (birds_loop dt bs g)) = nextRef g"
  "rand (snd (birds_loop dt bs g)) = rand g"
  "store (snd (birds_loop dt bs g)) = store g"
  "e_x (egg (snd (birds_loop dt bs g))) = e_x (egg g)"
  "e_y (egg (snd (birds_loop dt bs g))) = e_y (egg g)"
  by (induction bs arbitrary: g; simp add: Let_def)+

lemma land_frame [simp]:
  "platforms (land r g) = platforms g"
  "camera_y (land r g) = camera_y g"
  "power (land r g) = power g"
  "birds (land r g) = birds g"
  "birdTimer (land r g) = birdTimer g"
  "heightReached (land r g) = heightReached g"
  "nextRef (land r g) = nextRef g"
  "rand (land r g) = rand g"
  "p_y (store (land r g) q) = p_y (store g q)"
  "p_type (store (land r g) q) = p_type (store g q)"
  "p_removing (store (land r g) q) = p_removing (store g q)"
  by (simp_all add: land_def Let_def)

lemma landing_loop_frame [simp]:
  "platforms (landing_loop dt rs g) = platforms g"
  "camera_y (landing_loop dt rs g) = camera_y g"
  "power (landing_loop dt rs g) = power g"
  "birds (landing_loop dt rs g) = birds g"
  "birdTimer (landing_loop dt rs g) = birdTimer g"
  "heightReached (landing_loop dt rs g) = heightReached g"
  "nextRef (landing_loop dt rs g) = nextRef g"
  "rand (landing_loop dt rs g) = rand g"
  "p_y (store (landing_loop dt rs g) q) = p_y (store g q)"
  "p_type (store (landing_loop dt rs g) q) = p_type (store g q)"
  "p_removing (store (landing_loop dt rs g) q) = p_removing (store g q)"
  by (induction rs; simp)+

lemma step_power_frame [simp]:
  "state (step_power dt g) = state g"
  "egg (step_power dt g) = egg g"
  "platforms (step_power dt g) = platforms g"
  "camera_y (step_power dt g) = camera_y g"
  "xp (step_power dt g) = xp g"
  "highScore (step_power dt g) = highScore g"
  "birds (step_power dt g) = birds g"
  "birdTimer (step_power dt g) = birdTimer g"
  "heightReached (step_power dt g) = heightReached g"
  "store (step_power dt g) = store g"
  "nextRef (step_power dt g) = nextRef g"
  "rand (step_power dt g) = rand g"
  by (simp_all add: step_power_def Let_def split: option.splits)

lemma purge_timed_frame [simp]:
  "state (purge_timed g) = state g"
  "egg (purge_timed g) = egg g"
  "camera_y (purge_timed g) = camera_y g"
  "power (purge_timed g) = power g"
  "xp (purge_timed g) = xp g"
  "highScore (purge_timed g) = highScore g"
  "birds (purge_timed g) = birds g"
  "birdTimer (purge_timed g) = birdTimer g"
  "heightReached (purge_timed g) = heightReached g"
  "store (purge_timed g) = store g"
  "nextRef (purge_timed g) = nextRef g"
  "rand (purge_timed g) = rand g"
  "set (platforms (purge_timed g)) \<subseteq> set (platforms g)"
  by (simp_all add: purge_timed_def Let_def split: option.splits)

lemma spawn_bird_frame [simp]:
  "state (spawn_bird dt g) = state g"
  "egg (spawn_bird dt g) = egg g"
  "platforms (spawn_bird dt g) = platforms g"
  "camera_y (spawn_bird dt g) = camera_y g"
  "power (spawn_bird dt g) = power g"
  "xp (spawn_bird dt g) = xp g"
  "highScore (spawn_bird dt g) = highScore g"
  "heightReached (spawn_bird dt g) = heightReached g"
  "store (spawn_bird dt g) = store g"
  "nextRef (spawn_bird dt g) = nextRef g"
  "rand (spawn_bird dt g) = rand g"
  by (simp_all add: spawn_bird_def Let_def split: option.splits)

lemma update_birds_frame [simp]:
  "platforms (update_birds dt g) = platforms g"
  "camera_y (update_birds dt g) = camera_y g"
  "power (update_birds dt g) = power g"
  "xp (update_birds dt g) = xp g"
  "highScore (update_birds dt g) = highScore g"
  "birdTimer (update_birds dt g) = birdTimer g"
  "heightReached (update_birds dt g) = heightReached g"
  "store (update_birds dt g) = store g"
  "nextRef (update_birds dt g) = nextRef g"
  "rand (update_birds dt g) = rand g"
  "e_x (egg (update_birds dt g)) = e_x (egg g)"
  "e_y (egg (update_birds dt g)) = e_y (egg g)"
  by (simp_all add: update_birds_def Let_def split: option.splits)

lemma xp_decay_frame [simp]:
  "state (xp_decay dt g) = state g"
  "egg (xp_decay dt g) = egg g"
  "platforms (xp_decay dt g) = platforms g"
  "camera_y (xp_decay dt g) = camera_y g"
  "power (xp_decay dt g) = power g"
  "highScore (xp_decay dt g) = highScore g"
  "birds (xp_decay dt g) = birds g"
  "birdTimer (xp_decay dt g) = birdTimer g"
  "heightReached (xp_decay dt g) = heightReached g"
  "store (xp_decay dt g) = store g"
  "nextRef (xp_decay dt g) = nextRef g"
  "rand (xp_decay dt g) = rand g"
  by (simp_all add: xp_decay_def Let_def split: option.splits)

lemma grounded_frame [simp]:
  "platforms (grounded dt g) = platforms g"
  "camera_y (grounded dt g) = camera_y g"
  "power (grounded dt g) = power g"
  "xp (grounded dt g) = xp g"
  "highScore (grounded dt g) = highScore g"
  "birds (grounded dt g) = birds g"
  "birdTimer (grounded dt g) = birdTimer g"
  "heightReached (grounded dt g) = heightReached g"
  "store (grounded dt g) = store g"
  "nextRef (grounded dt g) = nextRef g"
  "rand (grounded dt g) = rand g"
  by (simp_all add: grounded_def Let_def split: option.splits)

lemma integrate_frame [simp]:
  "state (integrate dt g) = state g"
  "platforms (integrate dt g) = platforms g"
  "camera_y (integrate dt g) = camera_y g"
  "power (integrate dt g) = power g"
  "xp (integrate dt g) = xp g"
  "highScore (integrate dt g) = highScore g"
  "birds (integrate dt g) = birds g"
  "birdTimer (integrate dt g) = birdTimer g"
  "heightReached (integrate dt g) = heightReached g"
  "store (integrate dt g) = store g"
  "nextRef (integrate dt g) = nextRef g"
  "rand (integrate dt g) = rand g"
  by (simp_all add: integrate_def Let_def split: option.splits)

lemma emit_trail_frame [simp]:
  "state (emit_trail g) = state g"
  "egg (emit_trail g) = egg g"
  "platforms (emit_trail g) = platforms g"
  "camera_y (emit_trail g) = camera_y g"
  "power (emit_trail g) = power g"
  "xp (emit_trail g) = xp g"
  "highScore (emit_trail g) = highScore g"
  "birds (emit_trail g) = birds g"
  "birdTimer (emit_trail g) = birdTimer g"
  "heightReached (emit_trail g) = heightReached g"
  "store (emit_trail g) = store g"
  "nextRef (emit_trail g) = nextRef g"
  "rand (emit_trail g) = rand g"
  by (simp_all add: emit_trail_def Let_def split: option.splits)

lemma jumping_frame [simp]:
  "platforms (jumping dt plats g) = platforms g"
  "camera_y (jumping dt plats g) = camera_y g"
  "power (jumping dt plats g) = power g"
  "birds (jumping dt plats g) = birds g"
  "birdTimer (jumping dt plats g) = birdTimer g"
  "heightReached (jumping dt plats g) = heightReached g"
  "nextRef (jumping dt plats g) = nextRef g"
  "rand (jumping dt plats g) = rand g"
  "p_y (store (jumping dt plats g) q) = p_y (store g q)"
  "p_type (store (jumping dt plats g) q) = p_type (store g q)"
  "p_removing (store (jumping dt plats g) q) = p_removing (store g q)"
  by (simp_all add: jumping_def Let_def split: option.splits)

lemma camera_step_frame [simp]:
  "state (camera_step dt g) = state g"
  "egg (camera_step dt g) = egg g"
  "platforms (camera_step dt g) = platforms g"
  "power (camera_step dt g) = power g"
  "xp (camera_step dt g) = xp g"
  "highScore (camera_step dt g) = highScore g"
  "birds (camera_step dt g) = birds g"
  "birdTimer (camera_step dt g) = birdTimer g"
  "store (camera_step dt g) = store g"
  "nextRef (camera_step dt g) = nextRef g"
  "rand (camera_step dt g) = rand g"
  by (simp_all add: camera_step_def Let_def split: option.splits)

lemma step_particles_frame [simp]:
  "state (step_particles dt g) = state g"
  "egg (step_particles dt g) = egg g"
  "platforms (step_particles dt g) = platforms g"
  "camera_y (step_particles dt g) = camera_y g"
  "power (step_particles dt g) = power g"
  "xp (step_particles dt g) = xp g"
  "highScore (step_particles dt g) = highScore g"
  "birds (step_particles dt g) = birds g"
  "birdTimer (step_particles dt g) = birdTimer g"
  "heightReached (step_particles dt g) = heightReached g"
  "store (step_particles dt g) = store g"
  "nextRef (step_particles dt g) = nextRef g"
  "rand (step_particles dt g) = rand g"
  by (simp_all add: step_particles_def Let_def split: option.splits)

lemma step_fx_frame [simp]:
  "state (step_fx dt g) = state g"
  "egg (step_fx dt g) = egg g"
  "platforms (step_fx dt g) = platforms g"
  "camera_y (step_fx dt g) = camera_y g"
  "power (step_fx dt g) = power g"
  "xp (step_fx dt g) = xp g"
  "highScore (step_fx dt g) = highScore g"
  "birds (step_fx dt g) = birds g"
  "birdTimer (step_fx dt g) = birdTimer g"
  "heightReached (step_fx dt g) = heightReached g"
  "store (step_fx dt g) = store g"
  "nextRef (step_fx dt g) = nextRef g"
  "rand (step_fx dt g) = rand g"
  by (simp_all add: step_fx_def Let_def split: option.splits)

lemma column_maintenance_Some:
  "plats \<noteq> [] \<Longrightarrow> \<exists>g'. column_maintenance plats g = Some g'"
  by (simp add: column_maintenance_def Let_def)

lemma column_maintenance_frame:
  assumes "column_maintenance plats g = Some g'"
  shows "state g' = state g" "egg g' = egg g" "camera_y g' = camera_y g"
    "power g' = power g" "xp g' = xp g" "highScore g' = highScore g" "birds g' = birds g"
    "birdTimer g' = birdTimer g" "heightReached g' = heightReached g" "rand g' = rand g"
  using assms column_loop_frame
  by (auto simp add: column_maintenance_def Let_def split: if_splits)

lemma column_maintenance_refs:
  assumes "column_maintenance plats g = Some g'"
  shows "nextRef g \<le> nextRef g'"
    and "set (platforms g') \<subseteq> set plats \<union> {nextRef g ..< nextRef g'}"
    and "\<forall>r < nextRef g. store g' r = store g r"
    and "\<forall>r \<in> set plats. p_y (store g' r) < camera_y g + H + 50 \<longrightarrow> r \<in> set (platforms g')"
proof -
  define m where "m = min_list (map (\<lambda>r. p_y (store g r)) plats)"
  define res where "res = column_loop m plats g"
  from assms have ne: "plats \<noteq> []"
    and g': "g' = (snd res)\<lparr>platforms :=
               filter (\<lambda>r. p_y (store (snd res) r) < camera_y (snd res) + H + 50) (fst res)\<rparr>"
    by (auto simp add: column_maintenance_def Let_def res_def m_def split: if_splits)
  have refs: "fst res = plats @ [nextRef g ..< nextRef (snd res)]"
    "nextRef g \<le> nextRef (snd res)" "\<forall>r < nextRef g. store (snd res) r = store g r"
    using column_loop_refs [of m plats g] by (simp_all add: res_def)
  have cam: "camera_y (snd res) = camera_y g"
    using column_loop_frame [of m plats g] by (simp add: res_def)
  show "nextRef g \<le> nextRef g'" using refs g' by simp
  show "set (platforms g') \<subseteq> set plats \<union> {nextRef g ..< nextRef g'}"
    using refs g' by auto
  show "\<forall>r < nextRef g. store g' r = store g r" using refs g' by simp
  show "\<forall>r \<in> set plats. p_y (store g' r) < camera_y g + H + 50 \<longrightarrow> r \<in> set (platforms g')"
    using refs g' cam by auto
qed

lemma simulate_frame [simp]:
  "camera_y (simulate dt plats g) =
     (if e_y (egg (simulate dt plats g)) - H * 0.55 < camera_y g
      then camera_y g + (e_y (egg (simulate dt plats g)) - H * 0.55 - camera_y g) * 0.07 * dt
      else camera_y g)"
  "power (simulate dt plats g) = power (step_power dt g)"
  "nextRef (simulate dt plats g) = nextRef g"
  "rand (simulate dt plats g) = rand g"
  "p_y (store (simulate dt plats g) q) = p_y (store g q)"
  "p_type (store (simulate dt plats g) q) = p_type (store g q)"
  by (simp_all add: simulate_def Let_def camera_step_def)

lemma update_cases:
  assumes "update dt g = Some g'"
  obtains (over) "state g = Gameover" "g' = g"
  | (step) g1 where "state g \<noteq> Gameover" "platforms g \<noteq> []"
      "column_maintenance (platforms g) (simulate dt (platforms g) g) = Some g1"
      "g' = step_fx dt (step_particles dt g1)"
  using assms
  by (auto simp add: update_def Let_def column_maintenance_def split: if_splits option.splits)

lemma update_total:
  "state g = Gameover \<or> platforms g \<noteq> [] \<Longrightarrow> \<exists>g'. update dt g = Some g'"
  using column_maintenance_Some [of "platforms g" "simulate dt (platforms g) g"]
  by (auto simp add: update_def Let_def)

subsection \<open>Game over\<close>

lemma gameover_commands:
  "state g = Gameover \<Longrightarrow> update dt g = Some g \<and> startCharging g = g \<and> releaseJump g = g"
  by (simp add: update_def startCharging_def releaseJump_def)

lemma initGame_state [simp]: "state (initGame g) = Idle"
  by (simp add: initGame_def Let_def)

lemma gameover_run:
  "state g = Gameover \<Longrightarrow> Reset \<notin> set evs \<Longrightarrow> run evs g = Some g"
proof (induction evs)
  case Nil
  then show ?case by simp
next
  case (Cons ev evs)
  then have "exec ev g = Some g"
    by (cases ev) (simp_all add: gameover_commands)
  with Cons show ?case by simp
qed

subsection \<open>Running a frame step on a concrete state\<close>

text \<open>The frame step as nested phases, for the simplifier to run it phase by phase.\<close>

lemma simulate_phases:
  "simulate dt plats g =
     camera_step dt (jumping dt plats (grounded dt (xp_decay dt (update_birds dt
       (spawn_bird dt (purge_timed (timed_countdown dt plats
          ((step_power dt g)\<lparr>store := move_platforms dt plats (store (step_power dt g))\<rparr>))))))))"
  by (simp add: simulate_def Let_def)

lemma update_phases:
  "update dt g =
    (if state g = Gameover then Some g
     else case column_maintenance (platforms g) (simulate dt (platforms g) g) of
            None \<Rightarrow> None
          | Some g' \<Rightarrow> Some (step_fx dt (step_particles dt g')))"
  by (simp add: update_def Let_def)

lemmas eval_defs = update_phases simulate_phases column_maintenance_def column_loop_stop column_loop_step
    step_power_def timed_tick_def purge_timed_def spawn_bird_def update_birds_def
    xp_decay_def grounded_def jumping_def camera_step_def step_particles_def step_fx_def step_particle_def
    seed_platform_def height_m_def birdInterval_def tuning_defs move_platform_def
    integrate_def emit_trail_def can_land_def bird_hit_def particle_burst_def hit_particle_def Let_def

subsection \<open>Experience\<close>

lemma xp_decay_nonneg: "0 \<le> xp g \<Longrightarrow> 0 \<le> xp (xp_decay dt g)"
  by (simp add: xp_decay_def Let_def)

lemma land_xp: "xp g \<le> xp (land r g)"
  by (simp add: land_def Let_def)

lemma landing_loop_xp: "xp g \<le> xp (landing_loop dt rs g)"
  by (induction rs) (simp_all add: land_xp)

lemma jumping_xp: "xp g \<le> xp (jumping dt plats g)"
  using landing_loop_xp [of "emit_trail (integrate dt g)" dt plats]
  by (simp add: jumping_def Let_def)

lemma simulate_xp_nonneg: "0 \<le> xp g \<Longrightarrow> 0 \<le> xp (simulate dt plats g)"
proof -
  assume nn: "0 \<le> xp g"
  let ?g6 = "update_birds dt (spawn_bird dt (purge_timed (timed_countdown dt plats
               ((step_power dt g)\<lparr>store := move_platforms dt plats (store (step_power dt g))\<rparr>))))"
  have "xp ?g6 = xp g" by simp
  with nn have "0 \<le> xp (xp_decay dt ?g6)" by (simp add: xp_decay_nonneg)
  then have "0 \<le> xp (grounded dt (xp_decay dt ?g6))" by simp
  then have "0 \<le> xp (jumping dt plats (grounded dt (xp_decay dt ?g6)))"
    using jumping_xp [of "grounded dt (xp_decay dt ?g6)" dt plats] by linarith
  then show ?thesis by (simp add: simulate_phases)
qed

lemma update_xp_nonneg: "0 \<le> xp g \<Longrightarrow> update dt g = Some g' \<Longrightarrow> 0 \<le> xp g'"
proof -
  assume nn: "0 \<le> xp g" and upd: "update dt g = Some g'"
  from upd show ?thesis
  proof (cases rule: update_cases)
    case over
    with nn show ?thesis by simp
  next
    case (step g1)
    then show ?thesis
      using column_maintenance_frame(5) [OF step(3)] simulate_xp_nonneg [OF nn, of dt "platforms g"]
      by simp
  qed
qed

lemma releaseJump_xp: "xp g \<le> xp (releaseJump g)"
  by (simp add: releaseJump_def Let_def split: option.splits)

lemma releaseJump_xp_eq:
  "xp (releaseJump g) =
     (if state g = Charging \<and> pw_value (power g) \<ge> 99 then xp g + 5 else xp g)"
  by (simp add: releaseJump_def Let_def split: option.splits)

lemma initGame_xp [simp]: "xp (initGame g) = 0"
  by (simp add: initGame_def Let_def)

lemma startCharging_xp [simp]: "xp (startCharging g) = xp g"
  by (simp add: startCharging_def)

lemma initGame_Idle_start:
  "state (startCharging (initGame g)) = Charging"
  "pw_value (power (startCharging (initGame g))) = 0"
  "xp (startCharging (initGame g)) = 0"
  by (simp_all add: startCharging_def)

lemma exec_xp_nonneg: "0 \<le> xp g \<Longrightarrow> exec ev g = Some g' \<Longrightarrow> 0 \<le> xp g'"
proof (cases ev)
  case (Tick dt)
  assume "0 \<le> xp g" "exec ev g = Some g'"
  with Tick show ?thesis using update_xp_nonneg by simp
next
  case Reset
  assume "exec ev g = Some g'"
  with Reset show ?thesis by auto
next
  case BeginCharge
  assume "0 \<le> xp g" "exec ev g = Some g'"
  with BeginCharge show ?thesis by auto
next
  case Release
  assume "0 \<le> xp g" "exec ev g = Some g'"
  with Release show ?thesis using releaseJump_xp [of g] by auto
qed

lemma run_xp_nonneg: "0 \<le> xp g \<Longrightarrow> run evs g = Some g' \<Longrightarrow> 0 \<le> xp g'"
proof (induction evs arbitrary: g)
  case Nil
  then show ?case by simp
next
  case (Cons ev evs)
  from Cons.prems(2) obtain g1 where e: "exec ev g = Some g1" and r: "run evs g1 = Some g'"
    by (auto split: option.splits)
  from exec_xp_nonneg [OF Cons.prems(1) e] have "0 \<le> xp g1" .
  from Cons.IH [OF this r] show ?case .
qed

subsection \<open>References in the column\<close>

lemma init_loop_refs:
  "fst (init_loop c i ps g) = ps @ [nextRef g ..< nextRef g + c] \<and>
   nextRef (snd (init_loop c i ps g)) = nextRef g + c"
proof (induction c arbitrary: i ps g)
  case 0
  then show ?case by simp
next
  case (Suc c)
  then show ?case by (simp add: upt_conv_Cons)
qed

lemma initGame_refs:
  "platforms (initGame g) = [nextRef g ..< nextRef g + 26]"
  "nextRef (initGame g) = nextRef g + 26"
proof -
  let ?g0 = "g\<lparr>store := (store g)(nextRef g := seed_platform), nextRef := nextRef g + 1\<rparr>"
  have "[nextRef g ..< nextRef g + 26] = nextRef g # [nextRef g + 1 ..< nextRef g + 1 + 25]"
    by (simp add: upt_conv_Cons)
  then show "platforms (initGame g) = [nextRef g ..< nextRef g + 26]"
    using init_loop_refs [of 25 1 "[nextRef g]" ?g0] by (simp add: initGame_def Let_def)
  show "nextRef (initGame g) = nextRef g + 26"
    using init_loop_refs [of 25 1 "[nextRef g]" ?g0] by (simp add: initGame_def Let_def)
qed

lemma releaseJump_refs:
  "set (platforms (releaseJump g)) \<subseteq> set (platforms g)"
  "nextRef (releaseJump g) = nextRef g"
  by (auto simp add: releaseJump_def Let_def split: option.splits)

lemma startCharging_refs [simp]:
  "platforms (startCharging g) = platforms g"
  "nextRef (startCharging g) = nextRef g"
  by (simp_all add: startCharging_def)

lemma update_refs:
  assumes "update dt g = Some g'"
  shows "nextRef g \<le> nextRef g' \<and>
         set (platforms g') \<subseteq> set (platforms g) \<union> {nextRef g ..< nextRef g'}"
  using assms
proof (cases rule: update_cases)
  case over
  then show ?thesis by simp
next
  case (step g1)
  with column_maintenance_refs(1,2) [OF step(3)] show ?thesis by simp
qed

lemma exec_gone: "gone r g \<Longrightarrow> exec ev g = Some g' \<Longrightarrow> gone r g'"
proof (cases ev)
  case (Tick dt)
  assume a: "gone r g" "exec ev g = Some g'"
  with Tick have upd: "update dt g = Some g'" by simp
  from update_refs [OF upd] a(1) show ?thesis by (auto simp add: gone_def)
next
  case Reset
  assume a: "gone r g" "exec ev g = Some g'"
  with Reset show ?thesis by (auto simp add: gone_def initGame_refs)
next
  case BeginCharge
  assume a: "gone r g" "exec ev g = Some g'"
  with BeginCharge show ?thesis by (auto simp add: gone_def)
next
  case Release
  assume a: "gone r g" "exec ev g = Some g'"
  with Release show ?thesis using releaseJump_refs [of g] by (auto simp add: gone_def)
qed

lemma run_gone: "gone r g \<Longrightarrow> run evs g = Some g' \<Longrightarrow> gone r g'"
proof (induction evs arbitrary: g)
  case Nil
  then show ?case by simp
next
  case (Cons ev evs)
  from Cons.prems(2) obtain g1 where e: "exec ev g = Some g1" and r: "run evs g1 = Some g'"
    by (auto split: option.splits)
  from Cons.IH [OF exec_gone [OF Cons.prems(1) e] r] show ?case .
qed

lemma releaseJump_fragile:
  assumes "state g = Charging" "e_onPlatform (egg g) = Some r" "p_type (store g r) = Fragile"
  shows "r \<notin> set (platforms (releaseJump g))" "p_removing (store (releaseJump g) r)"
  using assms by (simp_all add: releaseJump_def Let_def)

subsection \<open>Bird spawning while the egg rests on the seed platform\<close>

lemma run_append:
  "run (xs @ ys) g = (case run xs g of None \<Rightarrow> None | Some g' \<Rightarrow> run ys g')"
  by (induction xs arbitrary: g) (simp_all split: option.splits)

lemma move_platforms_fixed:
  "p_speed (st r) = 0 \<Longrightarrow> move_platforms dt ps st r = st r"
proof (induction ps arbitrary: st)
  case Nil
  then show ?case by simp
next
  case (Cons a ps)
  let ?st = "st(a := move_platform dt (st a))"
  have same: "?st r = st r"
    using Cons.prems by (cases "r = a") (simp_all add: move_platform_def)
  with Cons.prems have "p_speed (?st r) = 0" by simp
  then have "move_platforms dt ps ?st r = ?st r" by (rule Cons.IH [of ?st])
  with same show ?case by simp
qed

lemma timed_tick_noop:
  "(\<forall>q. e_onPlatform (egg g) = Some q \<longrightarrow> p_type (store g q) \<noteq> Timed) \<Longrightarrow>
   timed_tick dt r g = g"
  by (auto simp add: timed_tick_def Let_def)

lemma timed_countdown_noop:
  "(\<forall>q. e_onPlatform (egg g) = Some q \<longrightarrow> p_type (store g q) \<noteq> Timed) \<Longrightarrow>
   timed_countdown dt rs g = g"
  by (induction rs) (simp_all add: timed_tick_noop)

lemma update_birds_empty: "birds g = [] \<Longrightarrow> update_birds dt g = g"
  by (simp add: update_birds_def)

lemma height_m_low:
  "540 - EGG_R \<le> heightReached g \<Longrightarrow> height_m g < 40"
  by (simp add: height_m_def EGG_R_def floor_less_iff)

lemma height_m_nonneg: "0 \<le> height_m g"
  by (simp add: height_m_def)

lemma birdInterval_low: "h < 40 \<Longrightarrow> birdInterval h = 99999"
  by (simp add: birdInterval_def)

lemma resting_simulate:
  assumes "resting r g" and "birdTimer g + dt \<le> 99999"
  shows "state (simulate dt plats g) = Idle"
    "egg (simulate dt plats g) = egg g"
    "store (simulate dt plats g) r = seed_platform"
    "camera_y (simulate dt plats g) = 0"
    "birds (simulate dt plats g) = []"
    "xp (simulate dt plats g) = 0"
    "heightReached (simulate dt plats g) = 540 - EGG_R"
    "birdTimer (simulate dt plats g) = birdTimer g + dt"
proof -
  define g2 where
    "g2 = (step_power dt g)\<lparr>store := move_platforms dt plats (store (step_power dt g))\<rparr>"
  define g5 where "g5 = (purge_timed g2)\<lparr>birdTimer := birdTimer g + dt\<rparr>"
  have g2: "g2 = g\<lparr>store := move_platforms dt plats (store g)\<rparr>"
    using assms(1) by (simp add: g2_def resting_def step_power_def)
  have st2: "store g2 r = seed_platform"
    using assms(1) by (simp add: g2 resting_def move_platforms_fixed seed_platform_def)
  have g3: "timed_countdown dt plats g2 = g2"
  proof (rule timed_countdown_noop, intro allI impI)
    fix q assume "e_onPlatform (egg g2) = Some q"
    then have "q = r" using assms(1) by (simp add: g2 resting_def)
    then show "p_type (store g2 q) \<noteq> Timed"
      using st2 by (simp add: seed_platform_def)
  qed
  have e5: "egg g5 = egg g" "state g5 = Idle" "camera_y g5 = 0"
    "store g5 r = seed_platform" "xp g5 = 0" "heightReached g5 = heightReached g"
    "birdTimer g5 = birdTimer g + dt" "birds g5 = []"
    using assms(1) st2 by (simp_all add: g5_def g2 resting_def)
  have low: "height_m g5 < 40"
    using assms(1) e5 by (intro height_m_low) (simp add: resting_def)
  have pre: "(purge_timed g2)\<lparr>birdTimer := birdTimer g2 + dt\<rparr> = g5"
    by (simp add: g5_def g2)
  have s5: "spawn_bird dt (purge_timed g2) = g5"
    using assms(2) low e5(7)
    by (simp add: spawn_bird_def Let_def pre birdInterval_low)
  have g6: "update_birds dt g5 = g5" using e5 by (intro update_birds_empty)
  have g7: "xp_decay dt g5 = g5" using e5 by (simp add: xp_decay_def)
  have g8: "grounded dt g5 = g5"
    using assms(1) e5
    by (simp add: grounded_def Let_def resting_def seed_platform_def tuning_defs)
  have g9: "jumping dt plats g5 = g5"
    using e5 by (simp add: jumping_def)
  have "simulate dt plats g =
      camera_step dt (jumping dt plats (grounded dt (xp_decay dt (update_birds dt
        (spawn_bird dt (purge_timed (timed_countdown dt plats g2)))))))"
    by (simp only: simulate_phases g2_def)
  then have sim: "simulate dt plats g = camera_step dt g5"
    by (simp only: g3 s5 g6 g7 g8 g9)
  show "state (simulate dt plats g) = Idle" using e5 by (simp add: sim)
  show "egg (simulate dt plats g) = egg g" using e5 by (simp add: sim)
  show "store (simulate dt plats g) r = seed_platform" using e5 by (simp add: sim)
  show "camera_y (simulate dt plats g) = 0"
    using e5 assms(1) by (simp add: sim camera_step_def Let_def resting_def tuning_defs)
  show "birds (simulate dt plats g) = []" using e5 by (simp add: sim)
  show "xp (simulate dt plats g) = 0" using e5 by (simp add: sim)
  show "heightReached (simulate dt plats g) = 540 - EGG_R"
    using e5 assms(1) by (simp add: sim camera_step_def Let_def resting_def tuning_defs)
  show "birdTimer (simulate dt plats g) = birdTimer g + dt" using e5 by (simp add: sim)
qed

lemma resting_frame:
  assumes "resting r g" and "birdTimer g + dt \<le> 99999"
  shows "\<exists>g'. update dt g = Some g' \<and> resting r g' \<and> birdTimer g' = birdTimer g + dt \<and>
              rand g' = rand g"
proof -
  let ?s = "simulate dt (platforms g) g"
  from assms(1) have ne: "platforms g \<noteq> []" and idle: "state g \<noteq> Gameover"
    and r: "r \<in> set (platforms g)" "r < nextRef g"
    by (auto simp add: resting_def)
  from column_maintenance_Some [OF ne] obtain g1
    where cm: "column_maintenance (platforms g) ?s = Some g1" by blast
  note sim = resting_simulate [OF assms, of "platforms g"]
  note fr = column_maintenance_frame [OF cm]
  have "r < nextRef ?s" using r by simp
  with column_maintenance_refs(3) [OF cm] have st: "store g1 r = seed_platform"
    using sim(3) by simp
  have "p_y (store g1 r) < camera_y ?s + H + 50"
    using st sim(4) by (simp add: seed_platform_def H_def)
  with column_maintenance_refs(4) [OF cm] r(1) have inc: "r \<in> set (platforms g1)" by blast
  have nr: "r < nextRef g1" using column_maintenance_refs(1) [OF cm] r(2) by simp
  let ?g' = "step_fx dt (step_particles dt g1)"
  have upd: "update dt g = Some ?g'" using idle cm by (simp add: update_phases)
  have "resting r ?g'"
    using sim fr st inc nr assms(1) by (simp add: resting_def)
  moreover have "birdTimer ?g' = birdTimer g + dt" using sim fr by simp
  moreover have "rand ?g' = rand g" using fr by simp
  ultimately show ?thesis using upd by blast
qed

lemma resting_run:
  "resting r g \<Longrightarrow> birdTimer g + real n \<le> 99999 \<Longrightarrow>
   \<exists>g'. run (replicate n (Tick 1)) g = Some g' \<and> resting r g' \<and>
        birdTimer g' = birdTimer g + real n \<and> rand g' = rand g"
proof (induction n arbitrary: g)
  case 0
  then show ?case by simp
next
  case (Suc n)
  from Suc.prems have "birdTimer g + 1 \<le> 99999" by simp
  from resting_frame [OF Suc.prems(1) this] obtain g1
    where g1: "update 1 g = Some g1" "resting r g1" "birdTimer g1 = birdTimer g + 1"
      "rand g1 = rand g" by blast
  from Suc.prems(2) g1(3) have "birdTimer g1 + real n \<le> 99999" by simp
  from Suc.IH [OF g1(2) this] obtain g'
    where "run (replicate n (Tick 1)) g1 = Some g'" "resting r g'"
      "birdTimer g' = birdTimer g1 + real n" "rand g' = rand g1" by blast
  with g1 show ?case by simp
qed

lemma init_loop_frame:
  "rand (snd (init_loop c i ps g)) = rand g \<and>
   (\<forall>r < nextRef g. store (snd (init_loop c i ps g)) r = store g r)"
  by (induction c arbitrary: i ps g) (simp_all add: alloc_platform_store)

lemma initGame_resting:
  "resting (nextRef g) (initGame g)" "birdTimer (initGame g) = 0" "rand (initGame g) = rand g"
proof -
  let ?g0 = "g\<lparr>store := (store g)(nextRef g := seed_platform), nextRef := nextRef g + 1\<rparr>"
  have "store (snd (init_loop 25 1 [nextRef g] ?g0)) (nextRef g) = seed_platform"
    using init_loop_frame [of 25 1 "[nextRef g]" ?g0] by simp
  then show "resting (nextRef g) (initGame g)"
    using initGame_refs [of g]
    by (simp add: resting_def) (simp add: initGame_def Let_def tuning_defs)
  show "birdTimer (initGame g) = 0" by (simp add: initGame_def Let_def)
  show "rand (initGame g) = rand g"
    using init_loop_frame [of 25 1 "[nextRef g]" ?g0] by (simp add: initGame_def Let_def)
qed

lemma resting_spawn:
  assumes "resting r g" and "birdTimer g + dt > 99999" and "0 \<le> dt" and "dt \<le> 5 / 2"
    and "\<forall>n. 0 \<le> rand g n \<and> rand g n < 1"
  shows "\<exists>g'. update dt g = Some g' \<and> height_m g' < 40 \<and> length (birds g') = 1"
proof -
  define g2 where
    "g2 = (step_power dt g)\<lparr>store := move_platforms dt (platforms g) (store (step_power dt g))\<rparr>"
  define h where "h = height_m g"
  define b where
    "b = \<lparr>b_x = W + 30, b_y = 80 + rand g (randPos g) * (H - 200),
          b_speed = 1.5 + rand g (randPos g + 1) * 1.2 + min 2 (real_of_int h * 0.01),
          b_frame = 0\<rparr>"
  define g5 where
    "g5 = (purge_timed g2)\<lparr>birdTimer := 0, birds := [b], randPos := randPos g + 2\<rparr>"
  have g2: "g2 = g\<lparr>store := move_platforms dt (platforms g) (store g)\<rparr>"
    using assms(1) by (simp add: g2_def resting_def step_power_def)
  have st2: "store g2 r = seed_platform"
    using assms(1) by (simp add: g2 resting_def move_platforms_fixed seed_platform_def)
  have g3: "timed_countdown dt (platforms g) g2 = g2"
  proof (rule timed_countdown_noop, intro allI impI)
    fix q assume "e_onPlatform (egg g2) = Some q"
    then have "q = r" using assms(1) by (simp add: g2 resting_def)
    then show "p_type (store g2 q) \<noteq> Timed"
      using st2 by (simp add: seed_platform_def)
  qed
  have hlow: "h < 40" "0 \<le> h"
    using assms(1) by (simp_all add: h_def height_m_low height_m_nonneg resting_def)
  have s5: "spawn_bird dt (purge_timed g2) = g5"
    using assms(1,2) hlow [unfolded h_def height_m_def]
    by (simp add: spawn_bird_def Let_def height_m_def birdInterval_low g5_def b_def h_def g2
        resting_def purge_timed_def)
  have e5: "egg g5 = egg g" "state g5 = Idle" "camera_y g5 = 0"
    "store g5 r = seed_platform" "heightReached g5 = heightReached g" "xp g5 = 0"
    "birds g5 = [b]"
    using assms(1) st2 by (simp_all add: g5_def g2 resting_def)
  have r0: "0 \<le> rand g (randPos g + 1)" "rand g (randPos g + 1) < 1"
    using assms(5) by simp_all
  have sp: "3 / 2 \<le> b_speed b" "b_speed b < 5"
    using r0 hlow by (simp_all add: b_def min_def)
  have "0 \<le> b_speed b * dt" using sp assms(3) by simp
  moreover have "b_speed b * dt \<le> 5 * (5 / 2)"
    using sp assms(3,4) by (intro mult_mono) simp_all
  moreover have "b_x b = 430" by (simp add: b_def W_def)
  ultimately have bx: "415 \<le> b_x b - b_speed b * dt" "b_x b - b_speed b * dt \<le> 430"
    by linarith+
  have loop: "birds_loop dt [b] g5 =
      ([b\<lparr>b_x := b_x b - b_speed b * dt, b_frame := b_frame b + dt * 0.15\<rparr>], g5)"
    using bx assms(1) e5 by (simp add: Let_def resting_def tuning_defs)
  have g6: "update_birds dt g5 =
      g5\<lparr>birds := [b\<lparr>b_x := b_x b - b_speed b * dt, b_frame := b_frame b + dt * 0.15\<rparr>]\<rparr>"
    unfolding update_birds_def e5(7) loop using bx by (simp add: Let_def)
  define g6 where
    "g6 = g5\<lparr>birds := [b\<lparr>b_x := b_x b - b_speed b * dt, b_frame := b_frame b + dt * 0.15\<rparr>]\<rparr>"
  have e6: "egg g6 = egg g" "state g6 = Idle" "camera_y g6 = 0"
    "store g6 r = seed_platform" "heightReached g6 = heightReached g" "xp g6 = 0"
    "length (birds g6) = 1"
    using e5 by (simp_all add: g6_def)
  have g7: "xp_decay dt g6 = g6" using e6 by (simp add: xp_decay_def)
  have g8: "grounded dt g6 = g6"
    using assms(1) e6
    by (simp add: grounded_def Let_def resting_def seed_platform_def tuning_defs)
  have g9: "jumping dt (platforms g) g6 = g6"
    using e6 by (simp add: jumping_def)
  have "simulate dt (platforms g) g =
      camera_step dt (jumping dt (platforms g) (grounded dt (xp_decay dt (update_birds dt
        (spawn_bird dt (purge_timed (timed_countdown dt (platforms g) g2)))))))"
    by (simp only: simulate_phases g2_def)
  then have sim: "simulate dt (platforms g) g = camera_step dt g6"
    by (simp only: g3 s5 g6 g6_def [symmetric] g7 g8 g9)
  from assms(1) have ne: "platforms g \<noteq> []" and idle: "state g \<noteq> Gameover"
    by (auto simp add: resting_def)
  from column_maintenance_Some [OF ne] obtain g1
    where cm: "column_maintenance (platforms g) (simulate dt (platforms g) g) = Some g1"
    by blast
  note fr = column_maintenance_frame [OF cm]
  let ?g' = "step_fx dt (step_particles dt g1)"
  have upd: "update dt g = Some ?g'" using idle cm by (simp add: update_phases)
  have "heightReached ?g' = 540 - EGG_R"
    using fr e6 assms(1) by (simp add: sim camera_step_def Let_def resting_def tuning_defs)
  then have "height_m ?g' < 40" by (intro height_m_low) simp
  moreover have "length (birds ?g') = 1" using fr e6 by (simp add: sim)
  ultimately show ?thesis using upd by blast
qed

lemma birdInterval_bands:
  "birdInterval 40 = 500 \<and> birdInterval 80 = 350 \<and> birdInterval 130 = 250 \<and>
   birdInterval 200 = 170 \<and> birdInterval 300 = 120 \<and>
   (40 \<le> h1 \<and> h1 \<le> h2 \<longrightarrow> birdInterval h2 \<le> birdInterval h1)"
  by (simp add: birdInterval_def)

subsection \<open>The countdown of timed platforms\<close>

lemma timed_tick_absent:
  "e_onPlatform (egg g) \<noteq> Some r \<Longrightarrow> timed_tick dt r g = g"
  by (simp add: timed_tick_def)

lemma timed_countdown_absent:
  "\<forall>q \<in> set rs. e_onPlatform (egg g) \<noteq> Some q \<Longrightarrow> timed_countdown dt rs g = g"
  by (induction rs) (simp_all add: timed_tick_absent)

lemma timed_countdown_append:
  "timed_countdown dt (xs @ ys) g = timed_countdown dt ys (timed_countdown dt xs g)"
  by (induction xs arbitrary: g) simp_all

lemma timed_tick_onPlatform:
  "e_onPlatform (egg (timed_tick dt r g)) = e_onPlatform (egg g) \<or>
   e_onPlatform (egg (timed_tick dt r g)) = None"
  by (simp add: timed_tick_def Let_def)

text \<open>The countdown loop over a column without repetitions is one step of the countdown,
  for the platform that carries the egg.\<close>

lemma timed_countdown_distinct:
  assumes "distinct rs"
  shows "timed_countdown dt rs g =
           (case e_onPlatform (egg g) of
              None \<Rightarrow> g
            | Some r \<Rightarrow> if r \<in> set rs then timed_tick dt r g else g)"
proof (cases "e_onPlatform (egg g)")
  case None
  then show ?thesis by (simp add: timed_countdown_absent)
next
  case (Some r)
  show ?thesis
  proof (cases "r \<in> set rs")
    case False
    then have "timed_countdown dt rs g = g"
      using Some by (intro timed_countdown_absent) auto
    with Some False show ?thesis by simp
  next
    case True
    then obtain xs ys where rs: "rs = xs @ r # ys" by (auto dest: split_list)
    with assms have nx: "r \<notin> set xs" and ny: "r \<notin> set ys" by auto
    have "timed_countdown dt xs g = g"
      using nx Some by (intro timed_countdown_absent) auto
    moreover have "timed_countdown dt ys (timed_tick dt r g) = timed_tick dt r g"
      using ny Some timed_tick_onPlatform [of dt r g]
      by (intro timed_countdown_absent) auto
    ultimately show ?thesis using Some True by (simp add: rs timed_countdown_append)
  qed
qed

lemma timed_tick_effect:
  assumes "e_onPlatform (egg g) = Some r" and "p_type (store g r) = Timed"
    and "p_landed (store g r)"
  shows "p_timer (store g r) - dt \<le> 0 \<and> \<not> p_removing (store g r) \<longrightarrow>
           store (timed_tick dt r g) r = (store g r)\<lparr>p_timer := 0, p_removing := True\<rparr> \<and>
           e_onPlatform (egg (timed_tick dt r g)) = None \<and>
           e_vy (egg (timed_tick dt r g)) = 0 \<and> state (timed_tick dt r g) = Jumping"
    and "\<not> (p_timer (store g r) - dt \<le> 0 \<and> \<not> p_removing (store g r)) \<longrightarrow>
           timed_tick dt r g =
             g\<lparr>store := (store g)(r := (store g r)\<lparr>p_timer := p_timer (store g r) - dt\<rparr>)\<rparr>"
  using assms by (simp_all add: timed_tick_def Let_def)

lemma timed_countdown_store_absent:
  "e_onPlatform (egg g) \<noteq> Some q \<Longrightarrow> store (timed_countdown dt rs g) q = store g q"
proof (induction rs arbitrary: g)
  case Nil
  then show ?case by simp
next
  case (Cons r rs)
  have "e_onPlatform (egg (timed_tick dt r g)) \<noteq> Some q"
    using Cons.prems timed_tick_onPlatform [of dt r g] by auto
  then have "store (timed_countdown dt rs (timed_tick dt r g)) q = store (timed_tick dt r g) q"
    by (rule Cons.IH)
  moreover have "store (timed_tick dt r g) q = store g q"
    using Cons.prems by (cases "r = q") (simp_all add: timed_tick_def Let_def)
  ultimately show ?case by simp
qed

lemma land_keeps_timer [simp]:
  "p_timer (store (land r g) q) = p_timer (store g q)"
  by (simp add: land_def Let_def)

lemma landing_loop_keeps_timer [simp]:
  "p_timer (store (landing_loop dt rs g) q) = p_timer (store g q)"
  by (induction rs) simp_all

lemma jumping_keeps_timer [simp]:
  "p_timer (store (jumping dt plats g) q) = p_timer (store g q)"
  by (simp add: jumping_def Let_def)

text \<open>The countdown of a platform that does not carry the egg when the frame starts is
  frozen for that frame.\<close>

lemma timer_frozen_when_absent:
  assumes "update dt g = Some g'" and "e_onPlatform (egg g) \<noteq> Some q" and "q < nextRef g"
  shows "p_timer (store g' q) = p_timer (store g q)"
  using assms(1)
proof (cases rule: update_cases)
  case over
  then show ?thesis by simp
next
  case (step g1)
  let ?s = "simulate dt (platforms g) g"
  let ?g2 = "(step_power dt g)\<lparr>store := move_platforms dt (platforms g) (store (step_power dt g))\<rparr>"
  have "q < nextRef ?s" using assms(3) by simp
  with column_maintenance_refs(3) [OF step(3)] have "store g1 q = store ?s q" by simp
  moreover have "p_timer (store ?s q) = p_timer (store (timed_countdown dt (platforms g) ?g2) q)"
    by (simp add: simulate_phases)
  moreover have "store (timed_countdown dt (platforms g) ?g2) q = store ?g2 q"
    using assms(2) by (intro timed_countdown_store_absent) simp
  ultimately show ?thesis using step(4) by simp
qed

text \<open>A platform of the column is in the column after a frame exactly when it has not
  scrolled out, whatever its type and its flags.\<close>

lemma column_after_frame:
  assumes "update dt g = Some g'" and "state g \<noteq> Gameover"
    and "r \<in> set (platforms g)" and "r < nextRef g"
  shows "r \<in> set (platforms g') \<longleftrightarrow> p_y (store g r) < camera_y g' + H + 50"
  using assms(1)
proof (cases rule: update_cases)
  case over
  with assms(2) show ?thesis by simp
next
  case (step g1)
  let ?s = "simulate dt (platforms g) g"
  note fr = column_maintenance_frame [OF step(3)]
  have "r < nextRef ?s" using assms(4) by simp
  with column_maintenance_refs(3) [OF step(3)] have "store g1 r = store ?s r" by simp
  then have y: "p_y (store g1 r) = p_y (store g r)" by simp
  have cam: "camera_y g' = camera_y ?s" using step(4) fr by simp
  have "r \<in> set (platforms g1) \<longleftrightarrow> p_y (store g1 r) < camera_y ?s + H + 50"
    using step(3) assms(3) column_loop_refs [of _ "platforms g" ?s] column_loop_frame [of _ "platforms g" ?s]
    by (auto simp add: column_maintenance_def Let_def split: if_splits)
  then show ?thesis using y cam step(4) by simp
qed

subsection \<open>Allocated references\<close>

lemma timed_countdown_onPlatform:
  "e_onPlatform (egg (timed_countdown dt rs g)) = Some q \<Longrightarrow> e_onPlatform (egg g) = Some q"
proof (induction rs arbitrary: g)
  case Nil
  then show ?case by simp
next
  case (Cons r rs)
  then have "e_onPlatform (egg (timed_tick dt r g)) = Some q" by simp
  with timed_tick_onPlatform [of dt r g] show ?case by auto
qed

lemma bird_hit_onPlatform:
  "e_onPlatform (egg (bird_hit g)) = Some q \<Longrightarrow> e_onPlatform (egg g) = Some q"
  by (simp add: bird_hit_def Let_def split: if_splits)

lemma birds_loop_onPlatform:
  "e_onPlatform (egg (snd (birds_loop dt bs g))) = Some q \<Longrightarrow> e_onPlatform (egg g) = Some q"
proof (induction bs arbitrary: g)
  case Nil
  then show ?case by simp
next
  case (Cons b bs)
  define hit where
    "hit \<longleftrightarrow> \<bar>e_x (egg g) - (b_x b - b_speed b * dt)\<bar> < EGG_R + 14 \<and>
             \<bar>e_y (egg g) - b_y b\<bar> < EGG_R + 8"
  have eq: "snd (birds_loop dt (b # bs) g) =
      (if hit then snd (birds_loop dt bs (bird_hit g)) else snd (birds_loop dt bs g))"
    by (simp add: hit_def Let_def)
  show ?case
  proof (cases hit)
    case True
    with Cons.prems eq have "e_onPlatform (egg (snd (birds_loop dt bs (bird_hit g)))) = Some q"
      by simp
    then have "e_onPlatform (egg (bird_hit g)) = Some q" by (rule Cons.IH)
    then show ?thesis by (rule bird_hit_onPlatform)
  next
    case False
    with Cons.prems eq have "e_onPlatform (egg (snd (birds_loop dt bs g))) = Some q"
      by simp
    then show ?thesis by (rule Cons.IH)
  qed
qed

lemma land_onPlatform [simp]: "e_onPlatform (egg (land r g)) = Some r"
  by (simp add: land_def Let_def)

lemma landing_loop_onPlatform:
  "e_onPlatform (egg (landing_loop dt rs g)) = Some q \<Longrightarrow>
   e_onPlatform (egg g) = Some q \<or> q \<in> set rs"
  by (induction rs) (auto split: if_splits)

lemma integrate_onPlatform [simp]:
  "e_onPlatform (egg (integrate dt g)) = e_onPlatform (egg g)"
  by (simp add: integrate_def Let_def)

lemma jumping_onPlatform:
  assumes "e_onPlatform (egg (jumping dt plats g)) = Some q"
  shows "e_onPlatform (egg g) = Some q \<or> q \<in> set plats"
proof (cases "state g = Jumping")
  case False
  with assms show ?thesis by (simp add: jumping_def)
next
  case True
  let ?g1 = "emit_trail (integrate dt g)"
  show ?thesis
  proof (cases "e_vy (egg ?g1) > 0 \<and> e_y (egg ?g1) - camera_y ?g1 < H + 10")
    case True
    with assms \<open>state g = Jumping\<close>
    have "e_onPlatform (egg (landing_loop dt plats ?g1)) = Some q"
      by (simp add: jumping_def Let_def split: if_splits)
    from landing_loop_onPlatform [OF this] show ?thesis by simp
  next
    case False
    with assms \<open>state g = Jumping\<close> show ?thesis
      by (simp add: jumping_def Let_def split: if_splits)
  qed
qed

lemma grounded_onPlatform:
  "e_onPlatform (egg (grounded dt g)) = Some q \<Longrightarrow> e_onPlatform (egg g) = Some q"
  by (auto simp add: grounded_def Let_def split: if_splits option.splits)

lemma simulate_onPlatform:
  assumes "e_onPlatform (egg (simulate dt plats g)) = Some q"
  shows "e_onPlatform (egg g) = Some q \<or> q \<in> set plats"
proof -
  let ?g2 = "(step_power dt g)\<lparr>store := move_platforms dt plats (store (step_power dt g))\<rparr>"
  let ?g5 = "spawn_bird dt (purge_timed (timed_countdown dt plats ?g2))"
  let ?g8 = "grounded dt (xp_decay dt (update_birds dt ?g5))"
  from assms have "e_onPlatform (egg (jumping dt plats ?g8)) = Some q"
    by (simp add: simulate_phases)
  then have "e_onPlatform (egg ?g8) = Some q \<or> q \<in> set plats"
    by (rule jumping_onPlatform)
  moreover have "e_onPlatform (egg g) = Some q" if "e_onPlatform (egg ?g8) = Some q"
  proof -
    from that have "e_onPlatform (egg (update_birds dt ?g5)) = Some q"
      using grounded_onPlatform [of dt "xp_decay dt (update_birds dt ?g5)" q] by simp
    then have "e_onPlatform (egg (snd (birds_loop dt (birds ?g5) ?g5))) = Some q"
      by (simp add: update_birds_def Let_def)
    then have "e_onPlatform (egg ?g5) = Some q" by (rule birds_loop_onPlatform)
    then have "e_onPlatform (egg (timed_countdown dt plats ?g2)) = Some q" by simp
    then have "e_onPlatform (egg ?g2) = Some q" by (rule timed_countdown_onPlatform)
    then show ?thesis by simp
  qed
  ultimately show ?thesis by blast
qed

lemma refs_ok_iff:
  "refs_ok g \<longleftrightarrow>
     (\<forall>r \<in> set (platforms g). r < nextRef g) \<and>
     (\<forall>r. e_onPlatform (egg g) = Some r \<longrightarrow> r < nextRef g)"
  by (auto simp add: refs_ok_def list_all_iff split: option.splits)

lemma update_refs_ok:
  assumes "refs_ok g" and "update dt g = Some g'"
  shows "refs_ok g'"
  using assms(2)
proof (cases rule: update_cases)
  case over
  with assms(1) show ?thesis by simp
next
  case (step g1)
  note fr = column_maintenance_frame [OF step(3)]
  note rf = column_maintenance_refs [OF step(3)]
  have nr: "nextRef g \<le> nextRef g1" "nextRef g' = nextRef g1"
    using rf(1) step(4) by simp_all
  have col: "\<forall>r \<in> set (platforms g'). r < nextRef g'"
  proof
    fix r assume "r \<in> set (platforms g')"
    then have "r \<in> set (platforms g1)" using step(4) by simp
    with rf(2) have "r \<in> set (platforms g) \<or> r < nextRef g1" by auto
    then show "r < nextRef g'"
      using assms(1) nr by (auto simp add: refs_ok_iff)
  qed
  have "r < nextRef g'" if "e_onPlatform (egg g') = Some r" for r
  proof -
    from that have "e_onPlatform (egg (simulate dt (platforms g) g)) = Some r"
      using step(4) fr by simp
    from simulate_onPlatform [OF this] have "r < nextRef g"
      using assms(1) by (auto simp add: refs_ok_iff)
    then show ?thesis using nr by simp
  qed
  with col show ?thesis by (simp add: refs_ok_iff)
qed

lemma exec_refs_ok: "refs_ok g \<Longrightarrow> exec ev g = Some g' \<Longrightarrow> refs_ok g'"
proof (cases ev)
  case (Tick dt)
  assume "refs_ok g" "exec ev g = Some g'"
  with Tick show ?thesis using update_refs_ok by simp
next
  case Reset
  assume "exec ev g = Some g'"
  with Reset have "g' = initGame g" by simp
  then show ?thesis
    by (simp add: refs_ok_iff initGame_refs) (simp add: initGame_def Let_def)
next
  case BeginCharge
  assume "refs_ok g" "exec ev g = Some g'"
  with BeginCharge show ?thesis by (auto simp add: refs_ok_iff startCharging_def)
next
  case Release
  assume a: "refs_ok g" "exec ev g = Some g'"
  with Release have g': "g' = releaseJump g" by simp
  have on: "e_onPlatform (egg (releaseJump g)) = Some r \<Longrightarrow> e_onPlatform (egg g) = Some r" for r
    by (simp add: releaseJump_def Let_def split: if_splits option.splits)
  have "\<forall>r \<in> set (platforms (releaseJump g)). r < nextRef (releaseJump g)"
    using a(1) releaseJump_refs [of g] by (auto simp add: refs_ok_iff)
  moreover have "\<forall>r. e_onPlatform (egg (releaseJump g)) = Some r \<longrightarrow> r < nextRef (releaseJump g)"
    using a(1) on releaseJump_refs(2) [of g] by (auto simp add: refs_ok_iff)
  ultimately show ?thesis by (simp add: g' refs_ok_iff)
qed

lemma run_refs_ok: "refs_ok g \<Longrightarrow> run evs g = Some g' \<Longrightarrow> refs_ok g'"
proof (induction evs arbitrary: g)
  case Nil
  then show ?case by simp
next
  case (Cons ev evs)
  from Cons.prems(2) obtain g1 where e: "exec ev g = Some g1" and r: "run evs g1 = Some g'"
    by (auto split: option.splits)
  from Cons.IH [OF exec_refs_ok [OF Cons.prems(1) e] r] show ?case .
qed

text \<open>In every state reached from the initial game, the platform under the egg and the
  platforms of the column are allocated objects.\<close>

lemma reachable_refs_ok: "run evs (game0 st rnd) = Some g \<Longrightarrow> refs_ok g"
  by (rule run_refs_ok [of "game0 st rnd"]) (simp_all add: refs_ok_iff game0_def)

lemma column_maintenance_column:
  assumes "column_maintenance plats g = Some g'"
  shows "\<exists>P. platforms g' = filter P (plats @ [nextRef g ..< nextRef g'])"
proof -
  define m where "m = min_list (map (\<lambda>r. p_y (store g r)) plats)"
  define res where "res = column_loop m plats g"
  from assms have g': "g' = (snd res)\<lparr>platforms :=
               filter (\<lambda>r. p_y (store (snd res) r) < camera_y (snd res) + H + 50) (fst res)\<rparr>"
    by (auto simp add: column_maintenance_def Let_def res_def m_def split: if_splits)
  have "fst res = plats @ [nextRef g ..< nextRef (snd res)]"
    using column_loop_refs [of m plats g] by (simp add: res_def)
  with g' show ?thesis by auto
qed

lemma update_distinct:
  assumes "refs_ok g" and "distinct (platforms g)" and "update dt g = Some g'"
  shows "distinct (platforms g')"
  using assms(3)
proof (cases rule: update_cases)
  case over
  with assms(2) show ?thesis by simp
next
  case (step g1)
  from column_maintenance_column [OF step(3)] obtain P
    where col: "platforms g1 = filter P (platforms g @ [nextRef g ..< nextRef g1])" by auto
  have "distinct (platforms g @ [nextRef g ..< nextRef g1])"
    using assms(1,2) by (auto simp add: refs_ok_iff)
  then have "distinct (filter P (platforms g @ [nextRef g ..< nextRef g1]))"
    by (rule distinct_filter)
  with col show ?thesis using step(4) by simp
qed

lemma exec_distinct:
  assumes "refs_ok g" and "distinct (platforms g)" and "exec ev g = Some g'"
  shows "distinct (platforms g')"
proof (cases ev)
  case (Tick dt)
  with assms show ?thesis using update_distinct by simp
next
  case Reset
  with assms(3) show ?thesis by (auto simp add: initGame_refs)
next
  case BeginCharge
  with assms show ?thesis by auto
next
  case Release
  with assms(3) have "g' = releaseJump g" by simp
  then show ?thesis using assms(2)
    by (simp add: releaseJump_def Let_def split: option.splits)
qed

lemma run_distinct:
  "refs_ok g \<Longrightarrow> distinct (platforms g) \<Longrightarrow> run evs g = Some g' \<Longrightarrow> distinct (platforms g')"
proof (induction evs arbitrary: g)
  case Nil
  then show ?case by simp
next
  case (Cons ev evs)
  from Cons.prems(3) obtain g1 where e: "exec ev g = Some g1" and r: "run evs g1 = Some g'"
    by (auto split: option.splits)
  from Cons.IH [OF exec_refs_ok [OF Cons.prems(1) e] exec_distinct [OF Cons.prems(1,2) e] r]
  show ?case .
qed

text \<open>In every state reached from the initial game, no platform is twice in the column.\<close>

lemma reachable_distinct: "run evs (game0 st rnd) = Some g \<Longrightarrow> distinct (platforms g)"
  by (rule run_distinct [of "game0 st rnd"]) (simp_all add: refs_ok_def game0_def)

subsection \<open>The scheduler callback and the camera\<close>

lemma loop_update:
  "loop time (lastTime, g) = map_option (Pair time) (update (frame_dt time lastTime) g)"
  by (simp add: loop_def Let_def split: option.splits)

lemma update_camera:
  assumes "0 \<le> dt" and "update dt g = Some g'"
  shows "camera_y g' \<le> camera_y g \<and>
         (state g \<noteq> Gameover \<longrightarrow>
            camera_y g' =
              (if e_y (egg g') - H * 0.55 < camera_y g
               then camera_y g + (e_y (egg g') - H * 0.55 - camera_y g) * 0.07 * dt
               else camera_y g))"
  using assms(2)
proof (cases rule: update_cases)
  case over
  then show ?thesis by simp
next
  case (step g1)
  let ?s = "simulate dt (platforms g) g"
  let ?t = "e_y (egg ?s) - H * 0.55"
  have cam: "camera_y g' = camera_y ?s" and egg: "egg g' = egg ?s"
    using step column_maintenance_frame [OF step(3)] by simp_all
  have eq: "camera_y g' =
      (if ?t < camera_y g then camera_y g + (?t - camera_y g) * 0.07 * dt else camera_y g)"
    using cam by simp
  have "camera_y g' \<le> camera_y g"
  proof (cases "?t < camera_y g")
    case True
    then have "(?t - camera_y g) * 0.07 * dt \<le> 0"
      using assms(1) by (simp add: mult_le_0_iff)
    with eq True show ?thesis by simp
  next
    case False
    with eq show ?thesis by simp
  qed
  with eq egg show ?thesis by simp
qed

text \<open>The ticks of the scheduler are frame steps with the time-deltas of \<open>deltas\<close>, and on a
  clock that does not go backwards each of them lies between 0 and 2.5.\<close>

lemma schedule_run:
  "schedule ts (lastTime, g) =
     map_option (Pair (last (lastTime # ts))) (run (map Tick (deltas lastTime ts)) g)"
proof (induction ts arbitrary: lastTime g)
  case Nil
  then show ?case by simp
next
  case (Cons t ts)
  show ?case
  proof (cases "update (frame_dt t lastTime) g")
    case None
    then show ?thesis by (simp add: loop_update)
  next
    case (Some g')
    then show ?thesis using Cons.IH [of t g'] by (simp add: loop_update)
  qed
qed

lemma frame_dt_bounds:
  "frame_dt time lastTime \<le> 2.5" "lastTime \<le> time \<Longrightarrow> 0 \<le> frame_dt time lastTime"
  by (simp_all add: frame_dt_def)

lemma deltas_range:
  "sorted (lastTime # ts) \<Longrightarrow> \<forall>dt \<in> set (deltas lastTime ts). 0 \<le> dt \<and> dt \<le> 2.5"
proof (induction ts arbitrary: lastTime)
  case Nil
  then show ?case by simp
next
  case (Cons t ts)
  from Cons.prems have le: "lastTime \<le> t" and rest: "sorted (t # ts)" by simp_all
  have "0 \<le> frame_dt t lastTime" using le by (rule frame_dt_bounds(2))
  moreover have "frame_dt t lastTime \<le> 2.5" by (rule frame_dt_bounds(1))
  ultimately show ?case using Cons.IH [OF rest] by simp
qed

text \<open>A scheduler tick whose clock reading is not smaller than the previous one does not
  move the camera down.\<close>

lemma loop_camera:
  assumes "lastTime \<le> time" and "loop time (lastTime, g) = Some (t', g')"
  shows "camera_y g' \<le> camera_y g"
proof -
  have "0 \<le> frame_dt time lastTime" using assms(1) by (simp add: frame_dt_def)
  moreover from assms(2) have "update (frame_dt time lastTime) g = Some g'"
    by (auto simp add: loop_update)
  ultimately show ?thesis using update_camera by blast
qed

subsection \<open>Landing\<close>

lemma landing_loop_find:
  "landing_loop dt plats g =
     (case find (\<lambda>r. can_land dt r g) plats of None \<Rightarrow> g | Some r \<Rightarrow> land r g)"
  by (induction plats) simp_all

lemma land_effect:
  "state (land r g) = Idle \<and> e_onPlatform (egg (land r g)) = Some r \<and>
   (if p_y (store g r) < highestPlatformY g
    then xp (land r g) = xp g + 3 \<and>
         highestPlatformY (land r g) = p_y (store g r) \<and>
         landingFx (land r g) =
           Some \<lparr>fx_y = p_y (store g r), fx_x = e_x (egg g), fx_timer = 20, fx_text = XpText\<rparr>
    else xp (land r g) = xp g \<and>
         highestPlatformY (land r g) = highestPlatformY g \<and>
         landingFx (land r g) =
           Some \<lparr>fx_y = p_y (store g r), fx_x = e_x (egg g), fx_timer = 20, fx_text = SafeText\<rparr>)"
  by (simp add: land_def Let_def)

lemma timed_countdown_airborne:
  "state g = Jumping \<Longrightarrow> state (timed_countdown dt rs g) = Jumping"
  "highestPlatformY (timed_countdown dt rs g) = highestPlatformY g"
proof -
  have tick: "state (timed_tick dt r g) = Jumping" if "state g = Jumping" for r g
    using that by (simp add: timed_tick_def Let_def)
  show "state g = Jumping \<Longrightarrow> state (timed_countdown dt rs g) = Jumping"
    by (induction rs arbitrary: g) (simp_all add: tick)
  have tick': "highestPlatformY (timed_tick dt r g) = highestPlatformY g" for r g
    by (simp add: timed_tick_def Let_def)
  show "highestPlatformY (timed_countdown dt rs g) = highestPlatformY g"
    by (induction rs arbitrary: g) (simp_all add: tick')
qed

lemma birds_loop_airborne:
  "state g = Jumping \<Longrightarrow> state (snd (birds_loop dt bs g)) = Jumping"
  "highestPlatformY (snd (birds_loop dt bs g)) = highestPlatformY g"
proof -
  have hit: "state (bird_hit g) = Jumping" if "state g = Jumping" for g
    using that by (simp add: bird_hit_def Let_def)
  show "state g = Jumping \<Longrightarrow> state (snd (birds_loop dt bs g)) = Jumping"
    by (induction bs arbitrary: g) (simp_all add: Let_def hit)
  have hit': "highestPlatformY (bird_hit g) = highestPlatformY g" for g
    by (simp add: bird_hit_def Let_def)
  show "highestPlatformY (snd (birds_loop dt bs g)) = highestPlatformY g"
    by (induction bs arbitrary: g) (simp_all add: Let_def hit')
qed

lemma before_landing_fields:
  assumes "state g = Jumping"
  shows "state (before_landing dt g) = Jumping"
    "xp (before_landing dt g) = xp g"
    "highestPlatformY (before_landing dt g) = highestPlatformY g"
    "p_y (store (before_landing dt g) q) = p_y (store g q)"
    "camera_y (before_landing dt g) = camera_y g"
proof -
  let ?g2 = "(step_power dt g)\<lparr>store := move_platforms dt (platforms g) (store (step_power dt g))\<rparr>"
  let ?g3 = "timed_countdown dt (platforms g) ?g2"
  let ?g5 = "spawn_bird dt (purge_timed ?g3)"
  have s3: "state ?g3 = Jumping" using assms by (intro timed_countdown_airborne) simp
  have h3: "highestPlatformY ?g3 = highestPlatformY g"
    by (simp add: timed_countdown_airborne step_power_def Let_def)
  have s5: "state ?g5 = Jumping" using s3 by simp
  have h5: "highestPlatformY ?g5 = highestPlatformY g"
    using h3 by (simp add: spawn_bird_def purge_timed_def Let_def)
  have s6: "state (update_birds dt ?g5) = Jumping"
    using s5 by (simp add: update_birds_def Let_def birds_loop_airborne)
  have h6: "highestPlatformY (update_birds dt ?g5) = highestPlatformY g"
    using h5 by (simp add: update_birds_def Let_def birds_loop_airborne)
  show "state (before_landing dt g) = Jumping" using s6 by (simp add: before_landing_def)
  show "xp (before_landing dt g) = xp g" by (simp add: before_landing_def)
  show "highestPlatformY (before_landing dt g) = highestPlatformY g"
    using h6 by (simp add: before_landing_def integrate_def emit_trail_def Let_def)
  show "p_y (store (before_landing dt g) q) = p_y (store g q)"
    by (simp add: before_landing_def)
  show "camera_y (before_landing dt g) = camera_y g" by (simp add: before_landing_def)
qed

lemma simulate_airborne:
  assumes "state g = Jumping"
  shows "simulate dt (platforms g) g =
    camera_step dt
      (let g1 = before_landing dt g;
           g2 = (if e_vy (egg g1) > 0 \<and> e_y (egg g1) - camera_y g1 < H + 10
                 then landing_loop dt (platforms g) g1 else g1)
       in if e_y (egg g2) > camera_y g2 + H + 20
          then g2\<lparr>state := Gameover, highScore := max (highScore g2) (score g2)\<rparr>
          else g2)"
proof -
  let ?g2 = "(step_power dt g)\<lparr>store := move_platforms dt (platforms g) (store (step_power dt g))\<rparr>"
  let ?g6 = "update_birds dt (spawn_bird dt (purge_timed (timed_countdown dt (platforms g) ?g2)))"
  have s6: "state ?g6 = Jumping"
    using assms by (simp add: update_birds_def Let_def birds_loop_airborne timed_countdown_airborne)
  then have "xp_decay dt ?g6 = ?g6" by (simp add: xp_decay_def)
  moreover from s6 have "grounded dt ?g6 = ?g6" by (simp add: grounded_def)
  moreover have "jumping dt (platforms g) ?g6 =
      (let g1 = emit_trail (integrate dt ?g6);
           g2 = (if e_vy (egg g1) > 0 \<and> e_y (egg g1) - camera_y g1 < H + 10
                 then landing_loop dt (platforms g) g1 else g1)
       in if e_y (egg g2) > camera_y g2 + H + 20
          then g2\<lparr>state := Gameover, highScore := max (highScore g2) (score g2)\<rparr>
          else g2)"
    by (simp only: jumping_def s6 simp_thms if_True)
  ultimately show ?thesis by (simp only: simulate_phases before_landing_def)
qed

lemma column_loop_cue:
  "highestPlatformY (snd (column_loop m ps g)) = highestPlatformY g \<and>
   landingFx (snd (column_loop m ps g)) = landingFx g"
proof (induction m ps g rule: column_loop.induct)
  case (1 minY plats g)
  show ?case
  proof (cases "minY > camera_y g - 300")
    case True
    with 1 show ?thesis by (simp add: column_loop_step alloc_platform_def Let_def)
  next
    case False
    then show ?thesis by (simp add: column_loop_stop)
  qed
qed

lemma column_maintenance_cue:
  assumes "column_maintenance plats g = Some g'"
  shows "highestPlatformY g' = highestPlatformY g" "landingFx g' = landingFx g"
  using assms column_loop_cue
  by (auto simp add: column_maintenance_def Let_def split: if_splits)

text \<open>A frame that starts in the jumping state and ends in the idle state has landed the
  egg on a platform of the column, with the experience, the best landing and (when the
  frame is shorter than the cue's 20 time units) the cue that the landing gave.\<close>

lemma landing_frame:
  assumes "state g = Jumping" and "update dt g = Some g'" and "state g' = Idle"
  shows "\<exists>r \<in> set (platforms g).
           find (\<lambda>r. can_land dt r (before_landing dt g)) (platforms g) = Some r \<and>
           e_onPlatform (egg g') = Some r \<and>
           (if p_y (store g r) < highestPlatformY g
            then xp g' = xp g + 3 \<and> highestPlatformY g' = p_y (store g r) \<and>
                 (dt < 20 \<longrightarrow> map_option fx_text (landingFx g') = Some XpText)
            else xp g' = xp g \<and> highestPlatformY g' = highestPlatformY g \<and>
                 (dt < 20 \<longrightarrow> map_option fx_text (landingFx g') = Some SafeText))"
  using assms(2)
proof (cases rule: update_cases)
  case over
  with assms(1) show ?thesis by simp
next
  case (step g1)
  define B where "B = before_landing dt g"
  define L where
    "L = (if e_vy (egg B) > 0 \<and> e_y (egg B) - camera_y B < H + 10
          then landing_loop dt (platforms g) B else B)"
  define J where
    "J = (if e_y (egg L) > camera_y L + H + 20
          then L\<lparr>state := Gameover, highScore := max (highScore L) (score L)\<rparr> else L)"
  note bf = before_landing_fields [OF assms(1), of dt, folded B_def]
  have sim: "simulate dt (platforms g) g = camera_step dt J"
    by (simp add: simulate_airborne [OF assms(1)] B_def L_def J_def Let_def)
  note fr = column_maintenance_frame [OF step(3)]
  note cue = column_maintenance_cue [OF step(3)]
  have "state J = Idle" using assms(3) step(4) fr by (simp add: sim)
  then have JL: "J = L" and sL: "state L = Idle"
    by (auto simp add: J_def split: if_splits)
  with bf(1) have LL: "L = landing_loop dt (platforms g) B"
    by (auto simp add: L_def split: if_splits)
  obtain r where f: "find (\<lambda>r. can_land dt r B) (platforms g) = Some r"
    using sL bf(1) by (cases "find (\<lambda>r. can_land dt r B) (platforms g)")
      (simp_all add: LL landing_loop_find)
  then have Lr: "L = land r B" by (simp add: LL landing_loop_find)
  from f have rin: "r \<in> set (platforms g)" by (auto simp add: find_Some_iff)
  have xp': "xp g' = xp (land r B)"
    using step(4) fr by (simp add: sim JL Lr)
  have hp': "highestPlatformY g' = highestPlatformY (land r B)"
    using step(4) cue by (simp add: sim JL Lr step_fx_def step_particles_def camera_step_def
        Let_def split: option.splits)
  have egg': "egg g' = egg (land r B)"
    using step(4) fr by (simp add: sim JL Lr)
  have fx1: "landingFx g1 = landingFx (land r B)"
    using cue by (simp add: sim JL Lr camera_step_def Let_def)
  have fx': "dt < 20 \<longrightarrow> map_option fx_text (landingFx g') = map_option fx_text (landingFx (land r B))"
    using land_effect [of r B] fx1 step(4)
    by (auto simp add: step_fx_def step_particles_def Let_def split: if_splits)
  show ?thesis
    using land_effect [of r B] rin f xp' hp' egg' fx' bf
    by (intro bexI [of _ r]) (auto simp add: B_def split: if_splits)
qed

section \<open>The claims\<close>

subsection \<open>C1: the time-delta of a scheduler tick\<close>

text \<open>
  C1. On every tick of the scheduler, whose clock starts at 0 and does not go backwards,
  the time-delta that \<^verbatim>\<open>loop\<close> derives and passes to \<^verbatim>\<open>update\<close> is
  \<open>min ((time - lastTime) / 16.67) 2.5\<close>: it lies between 0 and 2.5 nominal frame intervals.
  The upper bound is the clamp of \<^verbatim>\<open>loop\<close> and holds for every clock reading; the lower
  bound holds for every reading that is not smaller than the previous one. So over any
  run of ticks with non-decreasing timestamps from 0, the frame steps are exactly the
  steps with the time-deltas of \<open>deltas\<close>, and none of these is negative or above 2.5.
\<close>

theorem frame_dt_clamped:
  "frame_dt time lastTime \<le> 2.5 \<and>
   (lastTime \<le> time \<longrightarrow> 0 \<le> frame_dt time lastTime) \<and>
   loop time (lastTime, g) = map_option (Pair time) (update (frame_dt time lastTime) g) \<and>
   schedule ts (0, g) = map_option (Pair (last (0 # ts))) (run (map Tick (deltas 0 ts)) g) \<and>
   (sorted (0 # ts) \<longrightarrow> (\<forall>dt \<in> set (deltas 0 ts). 0 \<le> dt \<and> dt \<le> 2.5))"
proof -
  have "frame_dt time lastTime \<le> 2.5" by (rule frame_dt_bounds)
  moreover have "lastTime \<le> time \<longrightarrow> 0 \<le> frame_dt time lastTime"
    using frame_dt_bounds(2) by blast
  moreover have "loop time (lastTime, g)
      = map_option (Pair time) (update (frame_dt time lastTime) g)"
    by (rule loop_update)
  moreover have "schedule ts (0, g)
      = map_option (Pair (last (0 # ts))) (run (map Tick (deltas 0 ts)) g)"
    by (rule schedule_run)
  moreover have "sorted (0 # ts) \<longrightarrow> (\<forall>dt \<in> set (deltas 0 ts). 0 \<le> dt \<and> dt \<le> 2.5)"
    using deltas_range [of 0 ts] by blast
  ultimately show ?thesis by blast
qed

text \<open>Three ticks: two at the nominal interval of 16.67 ms, then one after a hitch of
  almost a second, whose time-delta is clamped to 2.5.\<close>

theorem frame_dt_clamped_witness:
  "(0::real) \<le> 1667 / 100 \<and> frame_dt (1667 / 100) 0 = 1 \<and>
   loop (1667 / 100) (0, demo_game) = map_option (Pair (1667 / 100)) (update 1 demo_game) \<and>
   sorted [0, 1667 / 100, 1667 / 50, 1000 :: real] \<and>
   deltas 0 [1667 / 100, 1667 / 50, 1000] = [1, 1, 5 / 2] \<and>
   schedule [1667 / 100, 1667 / 50, 1000] (0, demo_game) =
     map_option (Pair 1000) (run [Tick 1, Tick 1, Tick (5 / 2)] demo_game)"
proof -
  note clamped = frame_dt_clamped [of "1667 / 100" 0 demo_game "[1667 / 100, 1667 / 50, 1000]"]
  have dt: "frame_dt (1667 / 100) 0 = 1" by (simp add: frame_dt_def)
  have ds: "deltas 0 [1667 / 100, 1667 / 50, 1000] = [1, 1, 5 / 2]"
    by (simp add: frame_dt_def)
  from clamped have "loop (1667 / 100) (0, demo_game)
      = map_option (Pair (1667 / 100)) (update (frame_dt (1667 / 100) 0) demo_game)"
    by blast
  then have one: "loop (1667 / 100) (0, demo_game)
      = map_option (Pair (1667 / 100)) (update 1 demo_game)"
    by (simp only: dt)
  from clamped have "schedule [1667 / 100, 1667 / 50, 1000] (0, demo_game)
      = map_option (Pair (last (0 # [1667 / 100, 1667 / 50, 1000])))
          (run (map Tick (deltas 0 [1667 / 100, 1667 / 50, 1000])) demo_game)"
    by blast
  then have all: "schedule [1667 / 100, 1667 / 50, 1000] (0, demo_game)
      = map_option (Pair 1000) (run [Tick 1, Tick 1, Tick (5 / 2)] demo_game)"
    by (simp add: ds del: schedule.simps run.simps deltas.simps)
  have srt: "sorted [0, 1667 / 100, 1667 / 50, 1000 :: real]" by simp
  have pos: "(0::real) \<le> 1667 / 100" by simp
  from pos dt one srt ds all show ?thesis by (intro conjI)
qed

subsection \<open>C2: timed platforms\<close>

text \<open>
  The countdown itself is as C2 says: in a column without repetitions (lemma
  \<open>reachable_distinct\<close>) the countdown loop is one countdown step for the platform under
  the egg (lemma \<open>timed_countdown_distinct\<close>), that step decrements the timer of a timed,
  landed platform by \<open>dt\<close> and on expiry marks it removing and detaches the egg (lemma
  \<open>timed_tick_effect\<close>), and every other timer is frozen (lemma
  \<open>timer_frozen_when_absent\<close>). What fails is the purge (lemma \<open>column_after_frame\<close>).

  C2 at a failing input (the claim is right, the code is not). The egg rests on a timed
  platform (reference 1) that has been landed on and has one time unit left; the frame
  lasts two. The countdown expires: the platform is marked removing, its timer is 0, the egg
  is detached and the state is jumping. The purge, applied to the state that the platform
  motion and the countdown leave, assigns a new array without the platform to
  \<^verbatim>\<open>g.platforms\<close>, but platform management at the end of the frame filters the local
  \<^verbatim>\<open>platforms\<close>, the array the frame started with, and assigns the result to
  \<^verbatim>\<open>g.platforms\<close>: the expired platform is in the column again when the frame ends.
\<close>

theorem expired_timed_platform_stays_in_column:
  "state timed_game = Idle \<and> e_onPlatform (egg timed_game) = Some 1 \<and>
   p_type (store timed_game 1) = Timed \<and> p_landed (store timed_game 1) \<and>
   \<not> p_removing (store timed_game 1) \<and> p_timer (store timed_game 1) = 1 \<and>
   platforms timed_game = [0, 1, 2] \<and>
   platforms (purge_timed (timed_countdown 2 (platforms timed_game)
      (timed_game\<lparr>store := move_platforms 2 (platforms timed_game) (store timed_game)\<rparr>)))
     = [0, 2] \<and>
   (\<exists>g'. update 2 timed_game = Some g' \<and> state g' = Jumping \<and>
      e_onPlatform (egg g') = None \<and> p_removing (store g' 1) \<and> p_timer (store g' 1) = 0 \<and>
      platforms g' = [0, 1, 2])"
  by (simp add: timed_game_def eval_defs del: simulate_frame)

subsection \<open>C3: releasing the jump\<close>

text \<open>
  C3. \<^verbatim>\<open>releaseJump\<close> does nothing unless the state is charging. When charging, the egg's
  vertical velocity becomes minus \<open>MAX_JUMP_VEL * max 0.15 (power / 100) * (1 + stageIdx * 0.12)\<close>,
  its horizontal velocity becomes 0.35 times the lateral speed of the platform it stands
  on (0 without one), it leaves the platform and the state becomes jumping. With power 100
  and tier 0 the launch speed is \<open>MAX_JUMP_VEL * 1 * 1\<close>.
\<close>

theorem releaseJump_launch:
  "(state g \<noteq> Charging \<longrightarrow> releaseJump g = g) \<and>
   (state g = Charging \<longrightarrow>
      e_vy (egg (releaseJump g)) =
        - (MAX_JUMP_VEL * max 0.15 (pw_value (power g) / 100) * (1 + real (stageIdx g) * 0.12)) \<and>
      e_vx (egg (releaseJump g)) =
        (case e_onPlatform (egg g) of Some r \<Rightarrow> p_speed (store g r) * 0.35 | None \<Rightarrow> 0) \<and>
      e_onPlatform (egg (releaseJump g)) = None \<and>
      state (releaseJump g) = Jumping \<and>
      (pw_value (power g) = 100 \<and> stageIdx g = 0 \<longrightarrow>
         e_vy (egg (releaseJump g)) = - (MAX_JUMP_VEL * 1 * 1)))"
  by (simp add: releaseJump_def Let_def split: option.splits)

theorem releaseJump_launch_witness:
  "state charged_game = Charging \<and> pw_value (power charged_game) = 100 \<and>
   stageIdx charged_game = 0 \<and>
   e_vy (egg (releaseJump charged_game)) = - (23 / 2) \<and>
   e_vx (egg (releaseJump charged_game)) = 7 / 20 \<and>
   state (releaseJump charged_game) = Jumping \<and>
   state demo_game \<noteq> Charging \<and> releaseJump demo_game = demo_game"
  using releaseJump_launch [of charged_game] releaseJump_launch [of demo_game]
  by (simp add: charged_game_def demo_game_def seed_platform_def tuning_defs)

subsection \<open>C4: landing and experience\<close>

text \<open>
  C4. When the landing loop finds a platform for the descending egg (the first one in the
  column that passes the landing test), the egg lands on it. If that platform's y is
  strictly less than \<open>highestPlatformY\<close>, experience grows by 3, \<open>highestPlatformY\<close>
  becomes that y and the landing cue is the "+3 XP" one; otherwise experience and
  \<open>highestPlatformY\<close> are unchanged and the cue is the "SAFE" one. Lemma \<open>landing_frame\<close>
  says the same of a whole frame that starts in the jumping state and ends in the idle one.
\<close>

theorem landing_awards_experience:
  assumes "find (\<lambda>r. can_land dt r g) plats = Some r"
  shows "landing_loop dt plats g = land r g \<and>
         state (land r g) = Idle \<and> e_onPlatform (egg (land r g)) = Some r \<and>
         (if p_y (store g r) < highestPlatformY g
          then xp (land r g) = xp g + 3 \<and>
               highestPlatformY (land r g) = p_y (store g r) \<and>
               landingFx (land r g) =
                 Some \<lparr>fx_y = p_y (store g r), fx_x = e_x (egg g), fx_timer = 20,
                       fx_text = XpText\<rparr>
          else xp (land r g) = xp g \<and>
               highestPlatformY (land r g) = highestPlatformY g \<and>
               landingFx (land r g) =
                 Some \<lparr>fx_y = p_y (store g r), fx_x = e_x (egg g), fx_timer = 20,
                       fx_text = SafeText\<rparr>)"
  using assms land_effect [of r g] by (simp add: landing_loop_find)

theorem landing_awards_experience_witness:
  "find (\<lambda>r. can_land 1 r falling_game) (platforms falling_game) = Some 1 \<and>
   p_y (store falling_game 1) < highestPlatformY falling_game \<and>
   xp falling_game = 3 \<and>
   xp (landing_loop 1 (platforms falling_game) falling_game) = 6 \<and>
   highestPlatformY (landing_loop 1 (platforms falling_game) falling_game) = 460 \<and>
   map_option fx_text (landingFx (landing_loop 1 (platforms falling_game) falling_game))
     = Some XpText \<and>
   find (\<lambda>r. can_land 1 r refalling_game) (platforms refalling_game) = Some 1 \<and>
   \<not> p_y (store refalling_game 1) < highestPlatformY refalling_game \<and>
   xp (landing_loop 1 (platforms refalling_game) refalling_game) = 3 \<and>
   highestPlatformY (landing_loop 1 (platforms refalling_game) refalling_game) = 460 \<and>
   map_option fx_text (landingFx (landing_loop 1 (platforms refalling_game) refalling_game))
     = Some SafeText"
proof -
  have f1: "find (\<lambda>r. can_land 1 r falling_game) (platforms falling_game) = Some 1"
    by (simp add: falling_game_def demo_game_def can_land_def seed_platform_def tuning_defs Let_def)
  have f2: "find (\<lambda>r. can_land 1 r refalling_game) (platforms refalling_game) = Some 1"
    by (simp add: refalling_game_def falling_game_def demo_game_def can_land_def
        seed_platform_def tuning_defs Let_def)
  show ?thesis
    using f1 f2 landing_awards_experience [OF f1] landing_awards_experience [OF f2]
    by (simp add: refalling_game_def falling_game_def demo_game_def seed_platform_def)
qed

subsection \<open>C5: fragile platforms\<close>

text \<open>
  C5. When \<^verbatim>\<open>releaseJump\<close> launches the egg from a fragile platform (a platform object that
  has been allocated, as the platform under the egg is in every state reached from the
  initial game: lemma \<open>reachable_refs_ok\<close>), that platform is not in the column when the
  command returns, and it is in the column of no state that any later run of frame steps
  and commands reaches.
\<close>

theorem fragile_platform_removed_for_good:
  assumes "state g = Charging" and "e_onPlatform (egg g) = Some r"
    and "p_type (store g r) = Fragile" and "r < nextRef g"
  shows "r \<notin> set (platforms (releaseJump g)) \<and>
         (\<forall>evs g'. run evs (releaseJump g) = Some g' \<longrightarrow> r \<notin> set (platforms g'))"
proof -
  have out: "r \<notin> set (platforms (releaseJump g))"
    using assms(1-3) by (rule releaseJump_fragile)
  with assms(4) have away: "gone r (releaseJump g)"
    by (simp add: gone_def releaseJump_refs)
  have "r \<notin> set (platforms g')" if "run evs (releaseJump g) = Some g'" for evs g'
    using run_gone [OF away that] by (simp add: gone_def)
  with out show ?thesis by blast
qed

theorem fragile_platform_removed_for_good_witness:
  "state fragile_game = Charging \<and> e_onPlatform (egg fragile_game) = Some 1 \<and>
   p_type (store fragile_game 1) = Fragile \<and> 1 < nextRef fragile_game \<and>
   platforms fragile_game = [0, 1, 2] \<and>
   platforms (releaseJump fragile_game) = [0, 2] \<and>
   (\<exists>g'. run [Tick 1, Tick 1] (releaseJump fragile_game) = Some g' \<and> platforms g' = [0, 2])"
  using fragile_platform_removed_for_good [of fragile_game 1]
  by (simp add: fragile_game_def demo_game_def eval_defs releaseJump_def dust_particle_def
      del: simulate_frame)

subsection \<open>C6: the camera\<close>

text \<open>
  C6. A frame step with a non-negative time-delta (the time-delta of every scheduler tick
  whose clock has not gone backwards: lemma \<open>loop_camera\<close>) returns (the column is not
  empty, or the game is over) and never increases the camera's offset. Unless the game is
  over, the camera eases toward the target \<open>egg.y - H * 0.55\<close>, taken at the egg's position
  of that frame: it moves by \<open>(target - camera.y) * 0.07 * dt\<close> when the target is above it,
  and stays otherwise.
\<close>

theorem camera_only_moves_up:
  assumes "0 \<le> dt" and "state g = Gameover \<or> platforms g \<noteq> []"
  shows "\<exists>g'. update dt g = Some g' \<and> camera_y g' \<le> camera_y g \<and>
           (state g \<noteq> Gameover \<longrightarrow>
              camera_y g' =
                (if e_y (egg g') - H * 0.55 < camera_y g
                 then camera_y g + (e_y (egg g') - H * 0.55 - camera_y g) * 0.07 * dt
                 else camera_y g))"
proof -
  from assms(2) obtain g' where upd: "update dt g = Some g'"
    using update_total by blast
  from update_camera [OF assms(1) upd] upd show ?thesis by blast
qed

theorem camera_only_moves_up_witness:
  "(0::real) \<le> 1 \<and> platforms rising_game \<noteq> [] \<and> state rising_game \<noteq> Gameover \<and>
   (\<exists>g'. update 1 rising_game = Some g' \<and> e_y (egg g') = 7307 / 25 \<and>
      camera_y g' = - (22827 / 5000) \<and> camera_y g' \<le> camera_y rising_game)"
  using camera_only_moves_up [of 1 rising_game]
  by (simp add: rising_game_def demo_game_def eval_defs createPlatform_def alloc_platform_def
      del: simulate_frame)

subsection \<open>C7: bird spawning\<close>

text \<open>
  Below the lowest band the spawn interval is the number 99999, not infinity, and the bird
  timer grows in every frame. Eight meters up, with the timer at 99999, one more frame
  creates a bird.
\<close>

lemma bird_spawns_below_lowest_band:
  "height_m waiting_game = 8 \<and> birds waiting_game = [] \<and>
   (\<exists>g'. update 1 waiting_game = Some g' \<and> height_m g' = 8 \<and> length (birds g') = 1)"
  by (simp add: waiting_game_def demo_game_def eval_defs del: simulate_frame)

text \<open>
  C7 at a failing input (the claim is right, the code is not). After a reset the egg rests
  on the seed platform, at most one meter up. When \<^verbatim>\<open>Math.random()\<close> returns values in
  \<open>[0, 1)\<close>, 100000 frame steps of one nominal frame each (less than half an hour at 60
  frames a second) end in a state with a bird, still below the lowest band of 40 meters.
\<close>

theorem bird_spawns_after_long_rest:
  assumes "\<forall>n. 0 \<le> rnd n \<and> rnd n < 1"
  shows "\<exists>g'. run (Reset # replicate 100000 (Tick 1)) (game0 st rnd) = Some g' \<and>
              height_m g' < 40 \<and> length (birds g') = 1"
proof -
  let ?g = "initGame (game0 st rnd)"
  let ?r = "nextRef (game0 st rnd)"
  have rnd: "rand ?g = rnd" by (simp add: initGame_resting game0_def)
  have "birdTimer ?g + real (99999::nat) \<le> 99999" by (simp add: initGame_resting)
  from resting_run [OF initGame_resting(1) this] obtain g1
    where run1: "run (replicate 99999 (Tick 1)) ?g = Some g1" and rest1: "resting ?r g1"
      and bt1: "birdTimer g1 = birdTimer ?g + real (99999::nat)" and rnd1: "rand g1 = rand ?g"
    by blast
  have g1: "run (replicate 99999 (Tick 1)) ?g = Some g1" "resting ?r g1"
      "birdTimer g1 = 99999" "rand g1 = rnd"
    using run1 rest1 bt1 rnd1 rnd by (simp_all add: initGame_resting(2))
  have "\<exists>g'. update 1 g1 = Some g' \<and> height_m g' < 40 \<and> length (birds g') = 1"
    using g1 assms by (intro resting_spawn [of ?r]) simp_all
  then obtain g' where g': "update 1 g1 = Some g'" "height_m g' < 40" "length (birds g') = 1"
    by blast
  have "replicate (Suc 99999) (Tick 1) = replicate 99999 (Tick 1) @ [Tick 1]"
    by (simp only: replicate_Suc replicate_append_same)
  moreover have "(100000::nat) = Suc 99999" by simp
  ultimately have split: "replicate 100000 (Tick 1) = replicate 99999 (Tick 1) @ [Tick 1]"
    by (simp only:)
  have "run (replicate 99999 (Tick 1) @ [Tick 1]) ?g = Some g'"
    using g1(1) g'(1) by (simp add: run_append)
  then show ?thesis using g' by (auto simp add: split)
qed

theorem bird_spawns_after_long_rest_witness:
  "(0::real) \<le> 1 / 2 \<and> (1 / 2 :: real) < 1 \<and>
   (\<exists>g'. run (Reset # replicate 100000 (Tick 1))
            (game0 (\<lambda>_. seed_platform) (\<lambda>_. 1 / 2)) = Some g' \<and>
      height_m g' < 40 \<and> length (birds g') = 1)"
  using bird_spawns_after_long_rest [of "\<lambda>_. 1 / 2" "\<lambda>_. seed_platform"]
  by simp

subsection \<open>C8: experience is never negative\<close>

text \<open>
  C8. In every state that a run of frame steps (with any time-delta) and commands reaches
  from the initial game, experience is at least 0; the same holds for runs from any state
  whose experience is at least 0.
\<close>

theorem experience_never_negative:
  "(run evs (game0 st rnd) = Some g \<longrightarrow> 0 \<le> xp g) \<and>
   (0 \<le> xp g0 \<and> run evs g0 = Some g \<longrightarrow> 0 \<le> xp g)"
proof -
  have "xp (game0 st rnd) = 0" by (simp add: game0_def)
  then show ?thesis using run_xp_nonneg [of "game0 st rnd" evs g] run_xp_nonneg [of g0 evs g]
    by simp
qed

theorem experience_never_negative_witness:
  "(\<exists>g. run [Reset, BeginCharge, Release] (game0 (\<lambda>_. seed_platform) (\<lambda>_. 1 / 2)) = Some g \<and>
        xp g = 0) \<and>
   xp demo_game = 3 \<and>
   (\<exists>g. run [Tick 1, BeginCharge, Tick 1] demo_game = Some g \<and> xp g = 373 / 125) \<and>
   (\<exists>g. run [Release, Tick 1] charged_game = Some g \<and> xp g = 8)"
proof -
  let ?g0 = "game0 (\<lambda>_. seed_platform) (\<lambda>_. 1 / 2)"
  have a: "run [Reset, BeginCharge, Release] ?g0
             = Some (releaseJump (startCharging (initGame ?g0)))"
    by simp
  have "0 \<le> xp (releaseJump (startCharging (initGame ?g0)))"
    using a experience_never_negative
      [of "[Reset, BeginCharge, Release]" "\<lambda>_. seed_platform" "\<lambda>_. 1 / 2"
          "releaseJump (startCharging (initGame ?g0))"] by blast
  moreover have "xp (releaseJump (startCharging (initGame ?g0))) \<le> 0"
    by (simp add: releaseJump_xp_eq initGame_Idle_start)
  ultimately have b: "xp (releaseJump (startCharging (initGame ?g0))) = 0" by simp
  have c: "xp demo_game = 3" by (simp add: demo_game_def)
  have d: "\<exists>g. run [Tick 1, BeginCharge, Tick 1] demo_game = Some g \<and> xp g = 373 / 125"
    by (simp add: demo_game_def eval_defs startCharging_def del: simulate_frame)
  have e: "\<exists>g. run [Release, Tick 1] charged_game = Some g \<and> xp g = 8"
    by (simp add: charged_game_def demo_game_def eval_defs releaseJump_def del: simulate_frame)
  from a b c d e show ?thesis by blast
qed

subsection \<open>C9: an obstacle collision while charging\<close>

text \<open>
  C9. The collision branch of the bird loop leaves the power meter (value, direction and
  speed) as it is; when the state is charging it forces the egg off its platform and the
  state to jumping, so that \<^verbatim>\<open>releaseJump\<close> no longer uses the charge. Over a whole frame
  the meter is what the power-bar phase made of it when the frame started in the charging
  state, and is unchanged otherwise: a collision does not reset it, and it stops advancing
  once the state is no longer charging.
\<close>

theorem collision_leaves_power_meter:
  "power (bird_hit g) = power g \<and>
   power (snd (birds_loop dt bs g)) = power g \<and>
   (state g = Charging \<longrightarrow>
      state (bird_hit g) = Jumping \<and> e_onPlatform (egg (bird_hit g)) = None \<and>
      releaseJump (bird_hit g) = bird_hit g) \<and>
   (\<forall>g'. update dt g = Some g' \<longrightarrow>
      power g' = (if state g = Charging then power (step_power dt g) else power g))"
proof -
  have "power g' = (if state g = Charging then power (step_power dt g) else power g)"
    if "update dt g = Some g'" for g'
    using that
  proof (cases rule: update_cases)
    case over
    then show ?thesis by simp
  next
    case (step g1)
    then show ?thesis
      using column_maintenance_frame [OF step(3)] by (simp add: step_power_def)
  qed
  moreover have "state g = Charging \<longrightarrow>
      state (bird_hit g) = Jumping \<and> e_onPlatform (egg (bird_hit g)) = None \<and>
      releaseJump (bird_hit g) = bird_hit g"
    by (simp add: bird_hit_def Let_def releaseJump_def)
  ultimately show ?thesis by simp
qed

theorem collision_leaves_power_meter_witness:
  "state hit_game = Charging \<and>
   (\<exists>g'. update 1 hit_game = Some g' \<and> state g' = Jumping \<and> birds g' = [] \<and>
      power g' = \<lparr>pw_value = 258 / 5, pw_dir = 1, pw_speed = 8 / 5\<rparr>)"
  using collision_leaves_power_meter [of hit_game 1 "[]"]
  by (simp add: hit_game_def demo_game_def eval_defs del: simulate_frame)

subsection \<open>C10: game over\<close>

text \<open>
  C10. Once the state is gameover, a frame step returns the state it was given, for every
  time-delta, and so do \<^verbatim>\<open>startCharging\<close> and \<^verbatim>\<open>releaseJump\<close>; any run of frame steps and
  of these two commands leaves the state as it is. Only \<^verbatim>\<open>initGame\<close> changes it: the state
  becomes idle.
\<close>

theorem gameover_is_terminal:
  "state g = Gameover \<Longrightarrow>
     update dt g = Some g \<and> startCharging g = g \<and> releaseJump g = g \<and>
     (Reset \<notin> set evs \<longrightarrow> run evs g = Some g) \<and>
     initGame g \<noteq> g \<and> state (initGame g) = Idle"
proof -
  assume go: "state g = Gameover"
  have "initGame g \<noteq> g"
  proof
    assume "initGame g = g"
    then have "state (initGame g) = state g" by simp
    with go show False by simp
  qed
  then show ?thesis using go gameover_commands gameover_run by simp
qed

theorem gameover_is_terminal_witness:
  "state over_game = Gameover \<and>
   update (5 / 2) over_game = Some over_game \<and>
   run [Tick 1, BeginCharge, Release, Tick (5 / 2)] over_game = Some over_game \<and>
   initGame over_game \<noteq> over_game"
  using gameover_is_terminal [of over_game "5 / 2" "[Tick 1, BeginCharge, Release, Tick (5 / 2)]"]
  by (simp add: over_game_def demo_game_def)

end
